theory Spec2Isabelle
  imports Main "HOL-Library.Word"
begin

unbundle bit_operations_syntax

section \<open>psi: a PID 1 wrapper for single-process containers\<close>

text \<open>
  A shallow embedding of \<^verbatim>\<open>psi.go\<close>. The operating system is made explicit: the
  environment is a map, the process id is an argument, the signals a process receives and the
  results of its \<^verbatim>\<open>wait4\<close> calls are lists consumed in arrival order, and every
  effect (a signal sent, a timer created, a pause, a log line) is appended to a trace.
  \<^verbatim>\<open>os.Exit(code)\<close> is the value \<open>Some code\<close>; a loop that is still blocked when its
  inputs are used up is \<open>None\<close>.
\<close>

subsection \<open>Constants and the environment\<close>

definition childEnvKey :: string where
  "childEnvKey = ''PSI_CHILD''"

definition childEnvVal :: string where
  "childEnvVal = ''1''"

definition stopTimeoutEnv :: string where
  "stopTimeoutEnv = ''PSI_STOP_TIMEOUT''"

text \<open>\<^verbatim>\<open>time.Duration\<close> is a signed 64-bit count of nanoseconds.\<close>

type_synonym duration = int

definition Nanosecond :: nat where "Nanosecond = 1"
definition Microsecond :: nat where "Microsecond = 1000 * Nanosecond"
definition Millisecond :: nat where "Millisecond = 1000 * Microsecond"
definition Second :: nat where "Second = 1000 * Millisecond"
definition Minute :: nat where "Minute = 60 * Second"
definition Hour :: nat where "Hour = 60 * Minute"

definition defaultStopTimeout :: duration where
  "defaultStopTimeout = 30 * int Second"

type_synonym environ = "string \<rightharpoonup> string"

text \<open>\<^verbatim>\<open>os.Getenv\<close>: the value of the variable, the empty string when it is unset.\<close>

definition Getenv :: "environ \<Rightarrow> string \<Rightarrow> string" where
  "Getenv env k = (case env k of None \<Rightarrow> [] | Some v \<Rightarrow> v)"

subsection \<open>Signals\<close>

text \<open>
  \<^verbatim>\<open>os.Signal\<close> is an interface. Its values are \<^verbatim>\<open>syscall.Signal\<close> numbers (the only
  values \<^verbatim>\<open>signal.Notify\<close> delivers) or values of some other type that has a name
  (the \<^verbatim>\<open>fakeSignal\<close> of the tests). The numbers are those of Linux.
\<close>

datatype os_Signal = Syscall_Signal int | Other_Signal string

definition SIGHUP :: int where "SIGHUP = 1"
definition SIGINT :: int where "SIGINT = 2"
definition SIGQUIT :: int where "SIGQUIT = 3"
definition SIGKILL :: int where "SIGKILL = 9"
definition SIGUSR1 :: int where "SIGUSR1 = 10"
definition SIGUSR2 :: int where "SIGUSR2 = 12"
definition SIGTERM :: int where "SIGTERM = 15"
definition SIGCHLD :: int where "SIGCHLD = 17"

definition isTerminateSignal :: "os_Signal \<Rightarrow> bool" where
  "isTerminateSignal s =
     (if s = Syscall_Signal SIGTERM \<or> s = Syscall_Signal SIGINT
         \<or> s = Syscall_Signal SIGQUIT \<or> s = Syscall_Signal SIGHUP
      then True else False)"

text \<open>
  \<open>toSyscallSignal\<close> returns \<open>Some sig\<close> for \<^verbatim>\<open>(sig, true)\<close> and \<open>None\<close> for
  \<^verbatim>\<open>(0, false)\<close>. \<^verbatim>\<open>strings.ToUpper\<close> is the parameter \<open>up\<close>.
\<close>

definition toSyscallSignal :: "(string \<Rightarrow> string) \<Rightarrow> os_Signal \<Rightarrow> int option" where
  "toSyscallSignal up s =
     (case s of
        Syscall_Signal sig \<Rightarrow> Some sig
      | Other_Signal name \<Rightarrow>
          (let u = up name in
           if u = ''SIGTERM'' then Some SIGTERM
           else if u = ''SIGINT'' then Some SIGINT
           else if u = ''SIGQUIT'' then Some SIGQUIT
           else if u = ''SIGHUP'' then Some SIGHUP
           else if u = ''SIGUSR1'' then Some SIGUSR1
           else if u = ''SIGUSR2'' then Some SIGUSR2
           else None))"

subsection \<open>The Worker: \<open>runChild\<close>\<close>

text \<open>
  A context is \<^verbatim>\<open>context.Background()\<close>, which can never be cancelled, or the result of
  \<^verbatim>\<open>context.WithCancel\<close>. The field \<open>cancelled\<close> is the context's error being set;
  \<open>closes\<close> counts how often its \<^verbatim>\<open>Done\<close> channel was closed. The cancel function of
  the Go library returns at once when the context is cancelled already.
\<close>

record go_context =
  cancellable :: bool
  cancelled :: bool
  closes :: nat

definition Background :: go_context where
  "Background = \<lparr>cancellable = False, cancelled = False, closes = 0\<rparr>"

definition WithCancel :: "go_context \<Rightarrow> go_context" where
  "WithCancel parent = \<lparr>cancellable = True, cancelled = cancelled parent, closes = 0\<rparr>"

definition cancel :: "go_context \<Rightarrow> go_context" where
  "cancel c = (if cancelled c then c else c\<lparr>cancelled := True, closes := closes c + 1\<rparr>)"

type_synonym SubMain = "go_context \<Rightarrow> int"

text \<open>The signals \<^verbatim>\<open>signal.Notify(termCh, ...)\<close> subscribes the channel to.\<close>

definition termNotified :: "int \<Rightarrow> bool" where
  "termNotified sig = (sig = SIGINT \<or> sig = SIGTERM \<or> sig = SIGQUIT \<or> sig = SIGHUP)"

text \<open>The goroutine \<^verbatim>\<open>for range termCh { cancel() }\<close> over the signals it receives.\<close>

fun termLoop :: "go_context \<Rightarrow> int list \<Rightarrow> go_context" where
  "termLoop ctx [] = ctx"
| "termLoop ctx (sig # sigs) = termLoop (cancel ctx) sigs"

text \<open>
  \<open>runChild submain sigs\<close>: \<open>sigs\<close> are the signals the process receives while the entry
  function runs; the entry function sees the context as the goroutine leaves it. The result is
  the context and the argument of \<^verbatim>\<open>os.Exit\<close>.
\<close>

definition runChild :: "SubMain \<Rightarrow> int list \<Rightarrow> go_context \<times> int" where
  "runChild submain sigs =
     (let ctx = termLoop (WithCancel Background) (filter termNotified sigs);
          code = submain ctx
      in (ctx, code))"

subsection \<open>Strings of the Go library\<close>

text \<open>
  A Go string is a sequence of bytes. The functions of this section are those of the Go
  standard library that \<open>parseStopTimeout\<close> calls (\<^verbatim>\<open>strings.TrimSpace\<close> and
  \<^verbatim>\<open>time.ParseDuration\<close> with its helpers); they are not part of the repository and
  are written out here after the library of Go 1.25, which the module file names.
\<close>

definition byte :: "char \<Rightarrow> nat" where
  "byte c = of_char c"

text \<open>
  The white-space runes of \<^verbatim>\<open>unicode.IsSpace\<close> in UTF-8, by the number of their bytes:
  tab, line feed, vertical tab, form feed, carriage return and space; U+0085 and U+00A0;
  U+1680, U+2000 to U+200A, U+2028, U+2029, U+202F, U+205F and U+3000.
\<close>

definition space1 :: "string list" where
  "space1 = [[CHR 0x09], [CHR 0x0A], [CHR 0x0B], [CHR 0x0C], [CHR 0x0D], [CHR 0x20]]"

definition space2 :: "string list" where
  "space2 = [[CHR 0xC2, CHR 0x85], [CHR 0xC2, CHR 0xA0]]"

definition space3 :: "string list" where
  "space3 =
     [[CHR 0xE1, CHR 0x9A, CHR 0x80],
      [CHR 0xE2, CHR 0x80, CHR 0x80], [CHR 0xE2, CHR 0x80, CHR 0x81],
      [CHR 0xE2, CHR 0x80, CHR 0x82], [CHR 0xE2, CHR 0x80, CHR 0x83],
      [CHR 0xE2, CHR 0x80, CHR 0x84], [CHR 0xE2, CHR 0x80, CHR 0x85],
      [CHR 0xE2, CHR 0x80, CHR 0x86], [CHR 0xE2, CHR 0x80, CHR 0x87],
      [CHR 0xE2, CHR 0x80, CHR 0x88], [CHR 0xE2, CHR 0x80, CHR 0x89],
      [CHR 0xE2, CHR 0x80, CHR 0x8A],
      [CHR 0xE2, CHR 0x80, CHR 0xA8], [CHR 0xE2, CHR 0x80, CHR 0xA9],
      [CHR 0xE2, CHR 0x80, CHR 0xAF],
      [CHR 0xE2, CHR 0x81, CHR 0x9F],
      [CHR 0xE3, CHR 0x80, CHR 0x80]]"

definition spaceRunes :: "string list" where
  "spaceRunes = space1 @ space2 @ space3"

text \<open>
  \<open>spaceLen s\<close> is the number of bytes of the white-space rune that \<open>s\<close> starts with, and
  0 when it starts with none. \<open>spaceLenRev r\<close> is the same for the rune a string ends with,
  given the string reversed.
\<close>

definition spaceLen :: "string \<Rightarrow> nat" where
  "spaceLen s =
     (if take 1 s \<in> set space1 then 1
      else if take 2 s \<in> set space2 then 2
      else if take 3 s \<in> set space3 then 3
      else 0)"

definition spaceLenRev :: "string \<Rightarrow> nat" where
  "spaceLenRev r =
     (if rev (take 1 r) \<in> set space1 then 1
      else if rev (take 2 r) \<in> set space2 then 2
      else if rev (take 3 r) \<in> set space3 then 3
      else 0)"

function trimLeft :: "string \<Rightarrow> string" where
  "trimLeft s = (if spaceLen s = 0 then s else trimLeft (drop (spaceLen s) s))"
  by pat_completeness auto
termination
proof (relation "measure length")
  show "wf (measure length)" by simp
next
  fix s :: string
  assume "spaceLen s \<noteq> 0"
  then have "s \<noteq> []"
    by (auto simp: spaceLen_def space1_def space2_def space3_def)
  with \<open>spaceLen s \<noteq> 0\<close> show "(drop (spaceLen s) s, s) \<in> measure length" by simp
qed

function trimRightRev :: "string \<Rightarrow> string" where
  "trimRightRev r = (if spaceLenRev r = 0 then r else trimRightRev (drop (spaceLenRev r) r))"
  by pat_completeness auto
termination
proof (relation "measure length")
  show "wf (measure length)" by simp
next
  fix r :: string
  assume "spaceLenRev r \<noteq> 0"
  then have "r \<noteq> []"
    by (auto simp: spaceLenRev_def space1_def space2_def space3_def)
  with \<open>spaceLenRev r \<noteq> 0\<close> show "(drop (spaceLenRev r) r, r) \<in> measure length" by simp
qed

definition trimRight :: "string \<Rightarrow> string" where
  "trimRight s = rev (trimRightRev (rev s))"

text \<open>\<^verbatim>\<open>strings.TrimSpace\<close>: all leading and trailing white space removed.\<close>

definition TrimSpace :: "string \<Rightarrow> string" where
  "TrimSpace s = trimRight (trimLeft s)"

text \<open>
  \<open>isAllDigits\<close> ranges over the runes of the string. A byte of a rune beyond ASCII, and a
  byte that is not valid UTF-8, is above \<^verbatim>\<open>'9'\<close> as its rune is, so the loop is over the bytes.
\<close>

fun allDigitsLoop :: "string \<Rightarrow> bool" where
  "allDigitsLoop [] = True"
| "allDigitsLoop (r # rs) =
     (if byte r < byte CHR ''0'' \<or> byte r > byte CHR ''9'' then False else allDigitsLoop rs)"

definition isAllDigits :: "string \<Rightarrow> bool" where
  "isAllDigits s = (if s = [] then False else allDigitsLoop s)"

text \<open>
  \<^verbatim>\<open>leadingInt\<close> of package time consumes the leading digits; \<open>None\<close> is its overflow
  error. The guards keep \<open>x\<close> at most \<open>2 ^ 63\<close>, so the unsigned 64-bit arithmetic never wraps.
\<close>

fun leadingIntLoop :: "nat \<Rightarrow> string \<Rightarrow> (nat \<times> string) option" where
  "leadingIntLoop x [] = Some (x, [])"
| "leadingIntLoop x (c # cs) =
     (if byte c < byte CHR ''0'' \<or> byte c > byte CHR ''9'' then Some (x, c # cs)
      else if x > 2 ^ 63 div 10 then None
      else (let x' = x * 10 + byte c - byte CHR ''0''
            in if x' > 2 ^ 63 then None else leadingIntLoop x' cs))"

definition leadingInt :: "string \<Rightarrow> (nat \<times> string) option" where
  "leadingInt s = leadingIntLoop 0 s"

text \<open>
  \<^verbatim>\<open>leadingFraction\<close> consumes the leading digits and stops accumulating on overflow.
  The scale is a power of ten, kept here as a natural number.
\<close>

fun leadingFractionLoop :: "nat \<Rightarrow> nat \<Rightarrow> bool \<Rightarrow> string \<Rightarrow> nat \<times> nat \<times> string" where
  "leadingFractionLoop x scale overflow [] = (x, scale, [])"
| "leadingFractionLoop x scale overflow (c # cs) =
     (if byte c < byte CHR ''0'' \<or> byte c > byte CHR ''9'' then (x, scale, c # cs)
      else if overflow then leadingFractionLoop x scale overflow cs
      else if x > (2 ^ 63 - 1) div 10 then leadingFractionLoop x scale True cs
      else (let y = x * 10 + byte c - byte CHR ''0''
            in if y > 2 ^ 63 then leadingFractionLoop x scale True cs
               else leadingFractionLoop y (scale * 10) overflow cs))"

definition leadingFraction :: "string \<Rightarrow> nat \<times> nat \<times> string" where
  "leadingFraction s = leadingFractionLoop 0 1 False s"

definition unitMap :: "string \<Rightarrow> nat option" where
  "unitMap u =
     (if u = ''ns'' then Some Nanosecond
      else if u = ''us'' then Some Microsecond
      else if u = [CHR 0xC2, CHR 0xB5, CHR ''s''] then Some Microsecond
      else if u = [CHR 0xCE, CHR 0xBC, CHR ''s''] then Some Microsecond
      else if u = ''ms'' then Some Millisecond
      else if u = ''s'' then Some Second
      else if u = ''m'' then Some Minute
      else if u = ''h'' then Some Hour
      else None)"

definition numberChar :: "char \<Rightarrow> bool" where
  "numberChar c = (c = CHR ''.'' \<or> (byte CHR ''0'' \<le> byte c \<and> byte c \<le> byte CHR ''9''))"

text \<open>
  One round of the loop of \<^verbatim>\<open>time.ParseDuration\<close> on a non-empty string: a number, an
  optional fraction and a unit. The result is the value in nanoseconds and the rest of the
  string, \<open>None\<close> for each of the errors. The library computes the share of the fraction in
  floating point, \<^verbatim>\<open>uint64(float64(f) * (float64(unit) / scale))\<close>; that number is the
  parameter \<open>fr f unit scale\<close>.
\<close>

definition parseTerm :: "(nat \<Rightarrow> nat \<Rightarrow> nat \<Rightarrow> nat) \<Rightarrow> string \<Rightarrow> (nat \<times> string) option" where
  "parseTerm fr s =
     (case s of [] \<Rightarrow> None | c0 # _ \<Rightarrow>
      if \<not> numberChar c0 then None
      else (case leadingInt s of None \<Rightarrow> None | Some (v, s1) \<Rightarrow>
        (let pre = (length s \<noteq> length s1);
             (f, scale, s2, post) =
                (case s1 of
                   [] \<Rightarrow> (0, 1, s1, False)
                 | c1 # cs1 \<Rightarrow>
                     if c1 = CHR ''.''
                     then (case leadingFraction cs1 of
                             (f, scale, r) \<Rightarrow> (f, scale, r, length cs1 \<noteq> length r))
                     else (0, 1, s1, False))
         in if \<not> pre \<and> \<not> post then None
            else (let u = takeWhile (\<lambda>c. \<not> numberChar c) s2;
                      s3 = dropWhile (\<lambda>c. \<not> numberChar c) s2
                  in if u = [] then None
                     else (case unitMap u of None \<Rightarrow> None | Some unit \<Rightarrow>
                       if v > 2 ^ 63 div unit then None
                       else (let v1 = v * unit
                             in if f > 0
                                then (let v2 = (v1 + fr f unit scale mod 2 ^ 64) mod 2 ^ 64
                                      in if v2 > 2 ^ 63 then None else Some (v2, s3))
                                else Some (v1, s3)))))))"

text \<open>
  The loop of \<^verbatim>\<open>time.ParseDuration\<close>. The sum \<open>d\<close> is an unsigned 64-bit number: both
  summands are at most \<open>2 ^ 63\<close>, and their sum wraps when both reach it.
\<close>

function parseTerms :: "(nat \<Rightarrow> nat \<Rightarrow> nat \<Rightarrow> nat) \<Rightarrow> nat \<Rightarrow> string \<Rightarrow> nat option" where
  "parseTerms fr d s =
     (if s = [] then Some d
      else (case parseTerm fr s of None \<Rightarrow> None | Some (v, rest) \<Rightarrow>
        (let d' = (d + v) mod 2 ^ 64
         in if d' > 2 ^ 63 then None else parseTerms fr d' rest)))"
  by pat_completeness auto
termination
proof (relation "measure (\<lambda>(fr, d, s). length s)")
  show "wf (measure (\<lambda>(fr, d, s). length s))" by simp
next
  fix fr :: "nat \<Rightarrow> nat \<Rightarrow> nat \<Rightarrow> nat" and d :: nat and s :: string
    and x2 :: "nat \<times> string" and v :: nat and rest :: string and d' :: nat
  assume ne: "s \<noteq> []" and pt: "parseTerm fr s = Some x2" and x2: "(v, rest) = x2"
  have li: "leadingIntLoop x t = Some (w, t1) \<Longrightarrow> length t1 \<le> length t" for x t w t1
    by (induction x t rule: leadingIntLoop.induct) (auto simp: Let_def split: if_splits)
  have lf: "leadingFractionLoop x sc ov t = (w, sc', t1) \<Longrightarrow> length t1 \<le> length t"
    for x sc ov t w sc' t1
    by (induction x sc ov t rule: leadingFractionLoop.induct)
       (auto simp: Let_def split: if_splits)
  have dw: "length (dropWhile P t) < n" if a: "takeWhile P t \<noteq> []" and b: "length t \<le> n"
    for P and t :: string and n
  proof -
    have "length (takeWhile P t @ dropWhile P t) = length t" by simp
    then have "length (takeWhile P t) + length (dropWhile P t) = length t"
      by (simp del: takeWhile_dropWhile_id)
    moreover from a have "length (takeWhile P t) > 0" by simp
    ultimately show ?thesis using b by arith
  qed
  from pt x2 have "length rest < length s"
    unfolding parseTerm_def leadingInt_def leadingFraction_def
    by (auto simp: Let_def simp del: takeWhile.simps dropWhile.simps
             split: list.splits if_splits option.splits prod.splits
             dest!: li lf intro!: dw)
  then show "((fr, d', rest), fr, d, s) \<in> measure (\<lambda>(fr, d, s). length s)"
    by simp
qed

text \<open>\<^verbatim>\<open>time.ParseDuration\<close>; \<open>None\<close> is an error. The result is in nanoseconds.\<close>

definition ParseDuration :: "(nat \<Rightarrow> nat \<Rightarrow> nat \<Rightarrow> nat) \<Rightarrow> string \<Rightarrow> duration option" where
  "ParseDuration fr orig =
     (let (neg, s) =
            (case orig of
               [] \<Rightarrow> (False, orig)
             | c # cs \<Rightarrow> if c = CHR ''-'' \<or> c = CHR ''+'' then (c = CHR ''-'', cs)
                         else (False, orig))
      in if s = ''0'' then Some 0
         else if s = [] then None
         else (case parseTerms fr 0 s of
                 None \<Rightarrow> None
               | Some d \<Rightarrow>
                   if neg then Some (- int d)
                   else if d > 2 ^ 63 - 1 then None
                   else Some (int d)))"

subsection \<open>The stop timeout\<close>

datatype log_line =
    Invalid_timeout string duration
  | Start_failed string

text \<open>
  \<open>parseStopTimeout\<close> returns the duration and the lines it logs. The environment, a global
  of the process, and the parameter of \<open>parseTerm\<close> come first.
\<close>

definition parseStopTimeout ::
    "(nat \<Rightarrow> nat \<Rightarrow> nat \<Rightarrow> nat) \<Rightarrow> environ \<Rightarrow> duration \<Rightarrow> duration \<times> log_line list" where
  "parseStopTimeout fr env def =
     (let val = TrimSpace (Getenv env stopTimeoutEnv)
      in if val = [] then (def, [])
         else (let val' = (if isAllDigits val then val @ ''s'' else val)
               in case ParseDuration fr val' of
                    None \<Rightarrow> (def, [Invalid_timeout val' def])
                  | Some d \<Rightarrow>
                      if d < 0 then (def, [Invalid_timeout val' def]) else (d, [])))"

definition EffectiveTimeout :: "(nat \<Rightarrow> nat \<Rightarrow> nat \<Rightarrow> nat) \<Rightarrow> environ \<Rightarrow> duration" where
  "EffectiveTimeout fr env = fst (parseStopTimeout fr env defaultStopTimeout)"

subsection \<open>The Reaper: \<open>reapUntilChildExit\<close>\<close>

text \<open>
  \<^verbatim>\<open>syscall.WaitStatus\<close> is an unsigned 32-bit number; its methods are those of package
  syscall on Linux.
\<close>

type_synonym WaitStatus = "32 word"

definition Exited :: "WaitStatus \<Rightarrow> bool" where
  "Exited w = (w AND 0x7F = 0x00)"

definition Signaled :: "WaitStatus \<Rightarrow> bool" where
  "Signaled w = (w AND 0x7F \<noteq> 0x7F \<and> w AND 0x7F \<noteq> 0x00)"

definition ExitStatus :: "WaitStatus \<Rightarrow> int" where
  "ExitStatus w = (if \<not> Exited w then - 1 else uint (drop_bit 8 w) AND 0xFF)"

definition Signal :: "WaitStatus \<Rightarrow> int" where
  "Signal w = (if \<not> Signaled w then - 1 else uint (w AND 0x7F))"

datatype errno = EINTR | ECHILD | Errno nat

text \<open>One call of \<^verbatim>\<open>syscall.Wait4(-1, &ws, 0, &ru)\<close>: an error, or a pid and its status.\<close>

datatype wait4_result = Wait_error errno | Waited int WaitStatus

text \<open>
  \<open>reapUntilChildExit childPID slept rs\<close> runs the loop over the results \<open>rs\<close> of its wait
  calls. It returns the exit code (\<open>None\<close> while the loop has not returned), the pauses it
  made, \<open>slept\<close> being those made before, and the results it left unread.
\<close>

fun reapUntilChildExit ::
    "int \<Rightarrow> duration list \<Rightarrow> wait4_result list \<Rightarrow> int option \<times> duration list \<times> wait4_result list" where
  "reapUntilChildExit childPID slept [] = (None, slept, [])"
| "reapUntilChildExit childPID slept (Wait_error err # rs) =
     (if err = EINTR then reapUntilChildExit childPID slept rs
      else if err = ECHILD then (Some 0, slept, rs)
      else reapUntilChildExit childPID (slept @ [10 * int Millisecond]) rs)"
| "reapUntilChildExit childPID slept (Waited pid ws # rs) =
     (if pid = childPID
      then (if Exited ws then (Some (ExitStatus ws), slept, rs)
            else if Signaled ws then (Some (128 + Signal ws), slept, rs)
            else (Some 1, slept, rs))
      else reapUntilChildExit childPID slept rs)"

subsection \<open>The Supervisor: \<open>runAsInit\<close>\<close>

datatype action =
    Kill int int
  | NewTimer duration
  | StopTimer
  | DrainTimer
  | ResetTimer duration
  | Sleep duration
  | DrainZombies
  | Logged log_line

text \<open>A \<^verbatim>\<open>*time.Timer\<close> that is not nil: its duration and whether it has expired.\<close>

record timer =
  period :: duration
  expired :: bool

text \<open>
  The variables of \<open>runAsInit\<close> that change: \<open>startOnce\<close> is the \<^verbatim>\<open>sync.Once\<close> having
  run, \<open>killTimer\<close> is \<open>None\<close> for nil, \<open>trace\<close> is what the Supervisor has done so far.
\<close>

record supervisor =
  startOnce :: bool
  killTimer :: "timer option"
  trace :: "action list"

definition emit :: "action \<Rightarrow> supervisor \<Rightarrow> supervisor" where
  "emit a st = st\<lparr>trace := trace st @ [a]\<rparr>"

definition startKillTimer :: "duration \<Rightarrow> supervisor \<Rightarrow> supervisor" where
  "startKillTimer stopTimeout st =
     (case killTimer st of
        None \<Rightarrow>
          (emit (NewTimer stopTimeout) st)
            \<lparr>killTimer := Some \<lparr>period = stopTimeout, expired = False\<rparr>\<rparr>
      | Some t \<Rightarrow>
          (let st1 = emit StopTimer st;
               st2 = (if \<not> (\<not> expired t) then emit DrainTimer st1 else st1)
           in (emit (ResetTimer stopTimeout) st2)
                \<lparr>killTimer := Some \<lparr>period = stopTimeout, expired = False\<rparr>\<rparr>))"

text \<open>\<^verbatim>\<open>startOnce.Do(f)\<close>: \<open>f\<close> runs unless the Once has run before.\<close>

definition onceDo :: "(supervisor \<Rightarrow> supervisor) \<Rightarrow> supervisor \<Rightarrow> supervisor" where
  "onceDo f st = (if startOnce st then st else (f st)\<lparr>startOnce := True\<rparr>)"

text \<open>
  What the \<^verbatim>\<open>select\<close> of the Supervisor's loop can receive: the exit code on
  \<^verbatim>\<open>done\<close>, a signal on \<^verbatim>\<open>allSig\<close>, the expiry of the kill timer.
\<close>

datatype event = Done_event | Signal_event os_Signal | Timer_event

datatype 'a control = Continue 'a | Exit 'a int | Blocked 'a

text \<open>The body of the case \<^verbatim>\<open>s := <-allSig\<close>.\<close>

definition onSignal ::
    "(string \<Rightarrow> string) \<Rightarrow> int \<Rightarrow> duration \<Rightarrow> supervisor \<Rightarrow> os_Signal \<Rightarrow> supervisor" where
  "onSignal up childPID stopTimeout st s =
     (if s = Syscall_Signal SIGCHLD then st
      else (let st1 = (case toSyscallSignal up s of
                         Some sig \<Rightarrow> emit (Kill (- childPID) sig) st
                       | None \<Rightarrow> st);
                st2 = (if isTerminateSignal s
                       then onceDo (startKillTimer stopTimeout) st1 else st1)
            in st2))"

text \<open>
  One round of the loop. \<open>done\<close> is what the Reaper sends, \<open>None\<close> when it never returns. A
  channel that holds nothing cannot be chosen: \<^verbatim>\<open>done\<close> when the Reaper has sent
  nothing, the timer's channel when the timer is nil; such an event leaves the state as it is.
\<close>

definition onEvent ::
    "(string \<Rightarrow> string) \<Rightarrow> int \<Rightarrow> duration \<Rightarrow> int option \<Rightarrow> supervisor \<Rightarrow> event
       \<Rightarrow> supervisor control" where
  "onEvent up childPID stopTimeout done st ev =
     (case ev of
        Done_event \<Rightarrow>
          (case done of
             None \<Rightarrow> Continue st
           | Some code \<Rightarrow> Exit (emit DrainZombies (emit (Sleep (50 * int Millisecond)) st)) code)
      | Signal_event s \<Rightarrow> Continue (onSignal up childPID stopTimeout st s)
      | Timer_event \<Rightarrow>
          (case killTimer st of
             None \<Rightarrow> Continue st
           | Some t \<Rightarrow>
               (let st1 = emit (Kill (- childPID) SIGKILL)
                            (st\<lparr>killTimer := Some (t\<lparr>expired := True\<rparr>)\<rparr>)
                in case done of None \<Rightarrow> Blocked st1 | Some code \<Rightarrow> Exit st1 code)))"

fun supervisorLoop ::
    "(string \<Rightarrow> string) \<Rightarrow> int \<Rightarrow> duration \<Rightarrow> int option \<Rightarrow> supervisor \<Rightarrow> event list
       \<Rightarrow> supervisor \<times> int option" where
  "supervisorLoop up childPID stopTimeout done st [] = (st, None)"
| "supervisorLoop up childPID stopTimeout done st (ev # evs) =
     (case onEvent up childPID stopTimeout done st ev of
        Continue st' \<Rightarrow> supervisorLoop up childPID stopTimeout done st' evs
      | Exit st' code \<Rightarrow> (st', Some code)
      | Blocked st' \<Rightarrow> (st', None))"

text \<open>
  The world of a Supervisor: whether \<^verbatim>\<open>cmd.Start()\<close> fails (with a message) or gives
  the child's pid, the results of the Reaper's wait calls, and the events of the loop.
\<close>

record world =
  started :: "string + int"
  waits :: "wait4_result list"
  events :: "event list"

text \<open>
  \<open>runAsInit\<close> returns the final state and the exit code of the process, \<open>None\<close> when it
  has not exited. \<^verbatim>\<open>log.Fatalf\<close> logs and calls \<^verbatim>\<open>os.Exit(1)\<close>.
\<close>

definition runAsInit ::
    "(nat \<Rightarrow> nat \<Rightarrow> nat \<Rightarrow> nat) \<Rightarrow> (string \<Rightarrow> string) \<Rightarrow> environ \<Rightarrow> world
       \<Rightarrow> supervisor \<times> int option" where
  "runAsInit fr up env w =
     (case started w of
        Inl err \<Rightarrow>
          (\<lparr>startOnce = False, killTimer = None, trace = [Logged (Start_failed err)]\<rparr>, Some 1)
      | Inr childPID \<Rightarrow>
          (let done = fst (reapUntilChildExit childPID [] (waits w));
               (stopTimeout, logged) = parseStopTimeout fr env defaultStopTimeout;
               st = \<lparr>startOnce = False, killTimer = None, trace = map Logged logged\<rparr>
           in supervisorLoop up childPID stopTimeout done st (events w)))"

subsection \<open>Role dispatch: \<open>Run\<close>\<close>

text \<open>
  The three branches of \<open>Run\<close>: \<open>Worker\<close> is the call of \<open>runChild\<close>, \<open>Direct\<close> the call
  of the entry function followed by \<^verbatim>\<open>os.Exit\<close>, \<open>Supervisor\<close> the call of \<open>runAsInit\<close>.
  \<open>Run\<close> returns the branch taken and the exit code of the process.
\<close>

datatype role = Direct | Supervisor | Worker

definition Run ::
    "(nat \<Rightarrow> nat \<Rightarrow> nat \<Rightarrow> nat) \<Rightarrow> (string \<Rightarrow> string) \<Rightarrow> SubMain \<Rightarrow> environ \<Rightarrow> int
       \<Rightarrow> int list \<Rightarrow> world \<Rightarrow> role \<times> int option" where
  "Run fr up submain env pid sigs w =
     (if Getenv env childEnvKey = childEnvVal then (Worker, Some (snd (runChild submain sigs)))
      else if pid \<noteq> 1 then (Direct, Some (submain Background))
      else (Supervisor, snd (runAsInit fr up env w)))"

subsection \<open>The specification's terms\<close>

text \<open>The dispatch table of the specification: is the pid 1, is the marker present.\<close>

fun spec_role :: "bool \<Rightarrow> bool \<Rightarrow> role" where
  "spec_role False False = Direct"
| "spec_role False True = Worker"
| "spec_role True False = Supervisor"
| "spec_role True True = Worker"

text \<open>
  The exit outcome of the specification, read off a wait status as \<^verbatim>\<open>wait(2)\<close> lays it
  out: the low seven bits are 0 after a normal exit, whose code is the next byte; they are
  the number of the signal that killed the process unless they are all ones, which is a
  stopped or continued process.
\<close>

datatype ExitOutcome = ExitedWithCode nat | KilledBySignal nat | Indeterminate

definition spec_outcome :: "WaitStatus \<Rightarrow> ExitOutcome" where
  "spec_outcome ws =
     (if unat ws mod 128 = 0 then ExitedWithCode (unat ws div 256 mod 256)
      else if unat ws mod 128 = 127 then Indeterminate
      else KilledBySignal (unat ws mod 128))"

fun spec_status :: "ExitOutcome \<Rightarrow> int" where
  "spec_status (ExitedWithCode n) = int n"
| "spec_status (KilledBySignal n) = 128 + int n"
| "spec_status Indeterminate = 1"

text \<open>The number a string of decimal digits denotes.\<close>

definition digitsVal :: "string \<Rightarrow> nat" where
  "digitsVal s = foldl (\<lambda>n c. n * 10 + (byte c - byte CHR ''0'')) 0 s"

text \<open>
  A decimal digit; the number a string of digits denotes after the digits that gave \<open>x\<close>;
  a printable character of ASCII other than the space.
\<close>

definition digit :: "char \<Rightarrow> bool" where
  "digit c \<longleftrightarrow> 48 \<le> byte c \<and> byte c \<le> 57"

definition decimal :: "nat \<Rightarrow> string \<Rightarrow> nat" where
  "decimal x s = foldl (\<lambda>n c. n * 10 + (byte c - byte CHR ''0'')) x s"

definition plain :: "char \<Rightarrow> bool" where
  "plain c \<longleftrightarrow> 33 \<le> byte c \<and> byte c \<le> 126"

text \<open>The largest number of whole seconds a \<open>duration\<close> holds.\<close>

definition maxSeconds :: nat where
  "maxSeconds = 9223372036"

text \<open>The actions that start a countdown of the kill timer, and how many a trace has.\<close>

fun isArming :: "action \<Rightarrow> bool" where
  "isArming (NewTimer d) = True"
| "isArming (ResetTimer d) = True"
| "isArming a = False"

definition armings :: "action list \<Rightarrow> nat" where
  "armings tr = length (filter isArming tr)"

text \<open>The state of a Supervisor that has just started its loop, with what it has logged.\<close>

definition initial :: "action list \<Rightarrow> supervisor" where
  "initial tr = \<lparr>startOnce = False, killTimer = None, trace = tr\<rparr>"

text \<open>
  The invariant of the Supervisor's loop, \<open>k\<close> being the countdowns started before the
  loop: the Once has run and one more countdown was started, or it has not run, the timer is
  nil and none was started.
\<close>

definition armedOnce :: "nat \<Rightarrow> supervisor \<Rightarrow> bool" where
  "armedOnce k st \<longleftrightarrow>
     (if startOnce st then armings (trace st) = k + 1
      else killTimer st = None \<and> armings (trace st) = k)"

section \<open>Role dispatch\<close>

lemma keys_differ: "childEnvKey \<noteq> stopTimeoutEnv"
  by (simp add: childEnvKey_def stopTimeoutEnv_def)

lemma Getenv_upd: "k \<noteq> k' \<Longrightarrow> Getenv (env(k := v)) k' = Getenv env k'"
  by (simp add: Getenv_def)

lemma parseStopTimeout_env:
  "Getenv env stopTimeoutEnv = Getenv env' stopTimeoutEnv \<Longrightarrow>
   parseStopTimeout fr env def = parseStopTimeout fr env' def"
  by (simp add: parseStopTimeout_def)

lemma runAsInit_env:
  "Getenv env stopTimeoutEnv = Getenv env' stopTimeoutEnv \<Longrightarrow>
   runAsInit fr up env w = runAsInit fr up env' w"
  using parseStopTimeout_env [of env env' fr defaultStopTimeout]
  by (cases "started w") (simp_all add: runAsInit_def Let_def)

text \<open>
  C4. The branch \<open>Run\<close> takes is the specification's table applied to the pid and to the
  marker, the marker being present when \<^verbatim>\<open>PSI_CHILD\<close> has the value \<^verbatim>\<open>1\<close>. With
  the marker, whatever the pid, \<open>Run\<close> is the Worker: it calls \<open>runChild\<close> on the entry
  function and the process exits as \<open>runChild\<close> does. Without the marker and with a pid
  other than 1 it is Direct: the entry function runs on the background context, which cannot
  be cancelled, and the process exits with what it returns, whatever that value is. Without
  the marker and with pid 1 it is the Supervisor: it calls \<open>runAsInit\<close> and the process
  exits as \<open>runAsInit\<close> does.
\<close>

theorem Run_dispatch:
  "fst (Run fr up submain env pid sigs w)
     = spec_role (pid = 1) (env childEnvKey = Some childEnvVal)
   \<and> (spec_role (pid = 1) (env childEnvKey = Some childEnvVal) = Worker \<longrightarrow>
        Run fr up submain env pid sigs w = (Worker, Some (snd (runChild submain sigs))))
   \<and> (spec_role (pid = 1) (env childEnvKey = Some childEnvVal) = Direct \<longrightarrow>
        Run fr up submain env pid sigs w = (Direct, Some (submain Background))
        \<and> snd (Run fr up submain env pid sigs w) = Some (submain Background)
        \<and> \<not> cancellable Background)
   \<and> (spec_role (pid = 1) (env childEnvKey = Some childEnvVal) = Supervisor \<longrightarrow>
        Run fr up submain env pid sigs w = (Supervisor, snd (runAsInit fr up env w)))"
  by (cases "env childEnvKey") (auto simp: Run_def Getenv_def childEnvVal_def Background_def)

theorem Run_dispatch_witness:
  "spec_role ((1::int) = 1) ([childEnvKey \<mapsto> ''1''] childEnvKey = Some childEnvVal) = Worker
   \<and> Run (\<lambda>f u s. 0) id (\<lambda>c. if cancelled c then 99 else 23) [childEnvKey \<mapsto> ''1''] 1 [SIGTERM]
         \<lparr>started = Inr 5, waits = [], events = []\<rparr> = (Worker, Some 99)
   \<and> spec_role ((2::int) = 1) ((Map.empty :: environ) childEnvKey = Some childEnvVal) = Direct
   \<and> Run (\<lambda>f u s. 0) id (\<lambda>c. 42) Map.empty 2 []
         \<lparr>started = Inr 5, waits = [], events = []\<rparr> = (Direct, Some 42)
   \<and> spec_role ((1::int) = 1) ((Map.empty :: environ) childEnvKey = Some childEnvVal) = Supervisor
   \<and> Run (\<lambda>f u s. 0) id (\<lambda>c. 42) Map.empty 1 []
         \<lparr>started = Inr 42, waits = [Waited 42 0x0700], events = [Done_event]\<rparr>
       = (Supervisor, Some 7)"
proof -
  have h1: "spec_role ((1::int) = 1) ([childEnvKey \<mapsto> ''1''] childEnvKey = Some childEnvVal) = Worker"
    by (simp add: childEnvVal_def)
  have h2: "spec_role ((2::int) = 1) ((Map.empty :: environ) childEnvKey = Some childEnvVal) = Direct"
    by simp
  have h3: "spec_role ((1::int) = 1) ((Map.empty :: environ) childEnvKey = Some childEnvVal) = Supervisor"
    by simp
  have c: "snd (runChild (\<lambda>c. if cancelled c then 99 else 23) [SIGTERM]) = 99"
    by (simp add: runChild_def termNotified_def cancel_def WithCancel_def Background_def)
  obtain t ls where p: "parseStopTimeout (\<lambda>f u s. 0) Map.empty defaultStopTimeout = (t, ls)"
    by (cases "parseStopTimeout (\<lambda>f u s. 0) Map.empty defaultStopTimeout")
  have e: "Exited (0x0700 :: WaitStatus)" "ExitStatus (0x0700 :: WaitStatus) = 7"
    by (simp_all add: Exited_def ExitStatus_def)
  have s: "snd (runAsInit (\<lambda>f u s. 0) id Map.empty
        \<lparr>started = Inr 42, waits = [Waited 42 0x0700], events = [Done_event]\<rparr>) = Some 7"
    by (simp add: runAsInit_def Let_def p onEvent_def e)
  from Run_dispatch [where pid = 1 and env = "[childEnvKey \<mapsto> ''1'']"
      and submain = "\<lambda>c. if cancelled c then 99 else 23" and fr = "\<lambda>f u s. 0" and up = id
      and sigs = "[SIGTERM]" and w = "\<lparr>started = Inr 5, waits = [], events = []\<rparr>"] h1
  have "Run (\<lambda>f u s. 0) id (\<lambda>c. if cancelled c then 99 else 23) [childEnvKey \<mapsto> ''1''] 1 [SIGTERM]
         \<lparr>started = Inr 5, waits = [], events = []\<rparr>
      = (Worker, Some (snd (runChild (\<lambda>c. if cancelled c then 99 else 23) [SIGTERM])))"
    by blast
  then have r1: "Run (\<lambda>f u s. 0) id (\<lambda>c. if cancelled c then 99 else 23) [childEnvKey \<mapsto> ''1''] 1
      [SIGTERM] \<lparr>started = Inr 5, waits = [], events = []\<rparr> = (Worker, Some 99)"
    by (simp only: c)
  from Run_dispatch [where pid = 2 and env = Map.empty and submain = "\<lambda>c. 42"
      and fr = "\<lambda>f u s. 0" and up = id and sigs = "[]"
      and w = "\<lparr>started = Inr 5, waits = [], events = []\<rparr>"] h2
  have r2: "Run (\<lambda>f u s. 0) id (\<lambda>c. 42) Map.empty 2 []
         \<lparr>started = Inr 5, waits = [], events = []\<rparr> = (Direct, Some 42)"
    by blast
  from Run_dispatch [where pid = 1 and env = Map.empty and submain = "\<lambda>c. 42"
      and fr = "\<lambda>f u s. 0" and up = id and sigs = "[]"
      and w = "\<lparr>started = Inr 42, waits = [Waited 42 0x0700], events = [Done_event]\<rparr>"] h3
  have "Run (\<lambda>f u s. 0) id (\<lambda>c. 42) Map.empty 1 []
         \<lparr>started = Inr 42, waits = [Waited 42 0x0700], events = [Done_event]\<rparr>
      = (Supervisor, snd (runAsInit (\<lambda>f u s. 0) id Map.empty
           \<lparr>started = Inr 42, waits = [Waited 42 0x0700], events = [Done_event]\<rparr>))"
    by blast
  then have r3: "Run (\<lambda>f u s. 0) id (\<lambda>c. 42) Map.empty 1 []
         \<lparr>started = Inr 42, waits = [Waited 42 0x0700], events = [Done_event]\<rparr>
       = (Supervisor, Some 7)"
    by (simp only: s)
  from h1 h2 h3 r1 r2 r3 show ?thesis by blast
qed

text \<open>
  C9. \<open>Run\<close> takes the Worker branch exactly when \<^verbatim>\<open>PSI_CHILD\<close> is set to the string
  \<^verbatim>\<open>1\<close>. With any other value \<open>v\<close> of the variable, \<open>Run\<close> does what it does when the
  variable is unset; so when the pid is not 1 the entry function runs directly and its return
  value is the exit code.
\<close>

theorem Run_marker_exact:
  "(fst (Run fr up submain env pid sigs w) = Worker \<longleftrightarrow> env childEnvKey = Some ''1'')
   \<and> (env childEnvKey = Some v \<and> v \<noteq> ''1'' \<longrightarrow>
        Run fr up submain env pid sigs w
          = Run fr up submain (env(childEnvKey := None)) pid sigs w
        \<and> (pid \<noteq> 1 \<longrightarrow>
             Run fr up submain env pid sigs w = (Direct, Some (submain Background))))"
proof -
  have "runAsInit fr up env w = runAsInit fr up (env(childEnvKey := None)) w"
    by (rule runAsInit_env) (simp add: Getenv_upd keys_differ)
  then show ?thesis
    by (cases "env childEnvKey") (auto simp: Run_def Getenv_def childEnvVal_def)
qed

theorem Run_marker_exact_witness:
  "[childEnvKey \<mapsto> ''true''] childEnvKey = Some ''true'' \<and> ''true'' \<noteq> ''1'' \<and> (7::int) \<noteq> 1
   \<and> Run (\<lambda>f u s. 0) id (\<lambda>c. 42) [childEnvKey \<mapsto> ''true''] 7 []
         \<lparr>started = Inr 5, waits = [], events = []\<rparr> = (Direct, Some 42)"
proof -
  have h1: "[childEnvKey \<mapsto> ''true''] childEnvKey = Some ''true''" by simp
  have h2: "''true'' \<noteq> ''1''" by simp
  have h3: "(7::int) \<noteq> 1" by simp
  from Run_marker_exact [where pid = 7 and env = "[childEnvKey \<mapsto> ''true'']"
      and v = "''true''" and submain = "\<lambda>c. 42" and fr = "\<lambda>f u s. 0" and up = id
      and sigs = "[]" and w = "\<lparr>started = Inr 5, waits = [], events = []\<rparr>"] h1 h2 h3
  have "Run (\<lambda>f u s. 0) id (\<lambda>c. 42) [childEnvKey \<mapsto> ''true''] 7 []
         \<lparr>started = Inr 5, waits = [], events = []\<rparr> = (Direct, Some 42)"
    by blast
  with h1 h2 h3 show ?thesis by blast
qed

section \<open>The Worker\<close>

lemma termLoop_cancelled: "cancelled ctx \<Longrightarrow> termLoop ctx sigs = ctx"
  by (induction sigs) (simp_all add: cancel_def)

lemma termLoop_nonempty: "sigs \<noteq> [] \<Longrightarrow> termLoop ctx sigs = cancel ctx"
  by (cases sigs) (simp_all add: termLoop_cancelled cancel_def)

lemma termLoop_Nil_or_cancel:
  "termLoop ctx sigs = (if sigs = [] then ctx else cancel ctx)"
  by (simp add: termLoop_nonempty)

text \<open>
  C7. Whatever termination signals (interrupt, terminate, quit, hangup) the Worker receives,
  how many and in which order, the context ends as the first of them alone leaves it:
  cancelled, its \<^verbatim>\<open>Done\<close> channel closed once. It is the signals that cancel: the
  context is cancelled exactly when a termination signal has arrived, and with none it is
  the fresh context, not cancelled and never closed. The process exits with the code the
  entry function returns.
\<close>

theorem runChild_cancels_once:
  "(sigs \<noteq> [] \<and> set sigs \<subseteq> {SIGINT, SIGTERM, SIGQUIT, SIGHUP} \<longrightarrow>
      fst (runChild submain sigs) = fst (runChild submain [hd sigs])
      \<and> cancelled (fst (runChild submain sigs))
      \<and> closes (fst (runChild submain sigs)) = 1)
   \<and> (cancelled (fst (runChild submain sigs))
        \<longleftrightarrow> (\<exists>s \<in> set sigs. s \<in> {SIGINT, SIGTERM, SIGQUIT, SIGHUP}))
   \<and> closes (fst (runChild submain sigs))
       = (if \<exists>s \<in> set sigs. s \<in> {SIGINT, SIGTERM, SIGQUIT, SIGHUP} then 1 else 0)
   \<and> fst (runChild submain []) = WithCancel Background
   \<and> \<not> cancelled (WithCancel Background)
   \<and> snd (runChild submain sigs) = submain (fst (runChild submain sigs))"
proof -
  have a: "fst (runChild submain sigs) = fst (runChild submain [hd sigs])
      \<and> cancelled (fst (runChild submain sigs))
      \<and> closes (fst (runChild submain sigs)) = 1"
    if ne: "sigs \<noteq> []" and sub: "set sigs \<subseteq> {SIGINT, SIGTERM, SIGQUIT, SIGHUP}"
  proof -
    from sub have f: "filter termNotified sigs = sigs"
      by (auto simp: filter_id_conv termNotified_def)
    from ne sub have "termNotified (hd sigs)"
      by (cases sigs) (auto simp: termNotified_def)
    with ne f show ?thesis
      by (simp add: runChild_def Let_def termLoop_nonempty cancel_def WithCancel_def
            Background_def)
  qed
  have e: "(filter termNotified sigs = [])
      \<longleftrightarrow> \<not> (\<exists>s \<in> set sigs. s \<in> {SIGINT, SIGTERM, SIGQUIT, SIGHUP})"
    by (auto simp: filter_empty_conv termNotified_def)
  have f: "fst (runChild submain sigs)
      = (if filter termNotified sigs = [] then WithCancel Background
         else cancel (WithCancel Background))"
    by (simp add: runChild_def Let_def termLoop_Nil_or_cancel)
  have b: "cancelled (fst (runChild submain sigs))
        \<longleftrightarrow> (\<exists>s \<in> set sigs. s \<in> {SIGINT, SIGTERM, SIGQUIT, SIGHUP})"
    unfolding f using e by (simp add: cancel_def WithCancel_def Background_def)
  have c: "closes (fst (runChild submain sigs))
       = (if \<exists>s \<in> set sigs. s \<in> {SIGINT, SIGTERM, SIGQUIT, SIGHUP} then 1 else 0)"
    unfolding f using e by (simp add: cancel_def WithCancel_def Background_def)
  have d: "fst (runChild submain []) = WithCancel Background"
    by (simp add: runChild_def Let_def)
  have g: "\<not> cancelled (WithCancel Background)"
    by (simp add: WithCancel_def Background_def)
  have h: "snd (runChild submain sigs) = submain (fst (runChild submain sigs))"
    by (simp add: runChild_def Let_def)
  from a b c d g h show ?thesis by blast
qed

theorem runChild_cancels_once_witness:
  "[SIGTERM, SIGINT, SIGTERM] \<noteq> []
   \<and> set [SIGTERM, SIGINT, SIGTERM] \<subseteq> {SIGINT, SIGTERM, SIGQUIT, SIGHUP}
   \<and> closes (fst (runChild (\<lambda>c. if cancelled c then 99 else 23) [SIGTERM, SIGINT, SIGTERM])) = 1
   \<and> snd (runChild (\<lambda>c. if cancelled c then 99 else 23) [SIGTERM, SIGINT, SIGTERM]) = 99
   \<and> snd (runChild (\<lambda>c. if cancelled c then 99 else 23) [SIGUSR1]) = 23"
proof -
  let ?f = "\<lambda>c. if cancelled c then 99 else (23::int)"
  have h1: "[SIGTERM, SIGINT, SIGTERM] \<noteq> []" by simp
  have h2: "set [SIGTERM, SIGINT, SIGTERM] \<subseteq> {SIGINT, SIGTERM, SIGQUIT, SIGHUP}" by simp
  note t = runChild_cancels_once [where sigs = "[SIGTERM, SIGINT, SIGTERM]" and submain = ?f]
  from t h1 h2 have c: "cancelled (fst (runChild ?f [SIGTERM, SIGINT, SIGTERM]))" by blast
  from t h1 h2 have n: "closes (fst (runChild ?f [SIGTERM, SIGINT, SIGTERM])) = 1" by blast
  from t have e: "snd (runChild ?f [SIGTERM, SIGINT, SIGTERM])
      = ?f (fst (runChild ?f [SIGTERM, SIGINT, SIGTERM]))" by blast
  from c e have r: "snd (runChild ?f [SIGTERM, SIGINT, SIGTERM]) = 99" by simp
  note u = runChild_cancels_once [where sigs = "[SIGUSR1]" and submain = ?f]
  have k: "\<not> (\<exists>s \<in> set [SIGUSR1]. s \<in> {SIGINT, SIGTERM, SIGQUIT, SIGHUP})"
    by (simp add: SIGUSR1_def SIGINT_def SIGTERM_def SIGQUIT_def SIGHUP_def)
  from u k have nc: "\<not> cancelled (fst (runChild ?f [SIGUSR1]))" by blast
  from u have e2: "snd (runChild ?f [SIGUSR1]) = ?f (fst (runChild ?f [SIGUSR1]))" by blast
  from nc e2 have r2: "snd (runChild ?f [SIGUSR1]) = 23" by simp
  from h1 h2 n r r2 show ?thesis by blast
qed

section \<open>The Reaper\<close>

lemma low7: "unat (ws AND 0x7F) = unat ws mod 128" for ws :: WaitStatus
proof -
  have "(0x7F :: WaitStatus) = mask 7" by (simp add: mask_eq_exp_minus_1)
  then have "ws AND 0x7F = take_bit 7 ws" by (simp only: take_bit_eq_mask)
  then have "unat (ws AND 0x7F) = take_bit 7 (unat ws)" by (simp only: unsigned_take_bit_eq)
  also have "\<dots> = unat ws mod 128" by (simp add: take_bit_eq_mod)
  finally show ?thesis .
qed

lemma low7_zero: "(ws AND 0x7F = 0) = (unat ws mod 128 = 0)" for ws :: WaitStatus
  using low7 [of ws] by (simp add: unat_eq_0 [symmetric])

lemma low7_ones: "(ws AND 0x7F = 0x7F) = (unat ws mod 128 = 127)" for ws :: WaitStatus
proof -
  have "(ws AND 0x7F = 0x7F) = (unat (ws AND 0x7F) = unat (0x7F :: WaitStatus))"
    by (simp only: word_unat_eq_iff)
  then show ?thesis by (simp add: low7)
qed

lemma byte1: "uint (drop_bit 8 ws) AND 0xFF = int (unat ws div 256 mod 256)" for ws :: WaitStatus
proof -
  have "unat (drop_bit 8 ws) = drop_bit 8 (unat ws)" by (rule unat_drop_bit_eq)
  also have "\<dots> = unat ws div 256" by (simp add: drop_bit_eq_div)
  finally have u: "uint (drop_bit 8 ws) = int (unat ws div 256)" by (simp only: uint_nat)
  have "(0xFF :: int) = mask 8" by (simp add: mask_eq_exp_minus_1)
  then have "uint (drop_bit 8 ws) AND 0xFF = take_bit 8 (uint (drop_bit 8 ws))"
    by (simp only: take_bit_eq_mask)
  also have "\<dots> = int (unat ws div 256) mod 256"
    by (simp only: u take_bit_eq_mod) simp
  also have "\<dots> = int (unat ws div 256 mod 256)"
    by (simp only: zmod_int) simp
  finally show ?thesis .
qed

lemma status_translation:
  "(if Exited ws then ExitStatus ws else if Signaled ws then 128 + Signal ws else 1)
     = spec_status (spec_outcome ws)"
  by (simp add: Exited_def Signaled_def ExitStatus_def Signal_def spec_outcome_def
        low7_zero low7_ones byte1 low7 uint_nat [of "ws AND 0x7F"])

lemma reap_skips:
  "\<forall>(p, ws) \<in> set before. p \<noteq> childPID \<Longrightarrow>
   reapUntilChildExit childPID slept (map (\<lambda>(p, ws). Waited p ws) before @ rs)
     = reapUntilChildExit childPID slept rs"
  by (induction before) auto

lemma reap_child:
  "reapUntilChildExit childPID slept (Waited childPID ws # rs)
     = (Some (spec_status (spec_outcome ws)), slept, rs)"
  using status_translation [of ws] by (simp split: if_splits)

text \<open>
  C2. Given any sequence of reaped processes, \<open>reapUntilChildExit\<close> discards those whose
  pid is not the managed child's and goes on; at the managed child it stops, leaving the later
  results unread, and returns the child's outcome translated: its exit code after a normal
  exit, 128 plus the signal number when a signal killed it, 1 for any other status. While the
  child is not among the reaped processes the loop does not return.
\<close>

theorem reap_child_outcome:
  assumes "\<forall>(p, ws) \<in> set before. p \<noteq> childPID"
  shows "reapUntilChildExit childPID slept
           (map (\<lambda>(p, ws). Waited p ws) before @ Waited childPID ws # rs)
         = (Some (spec_status (spec_outcome ws)), slept, rs)
       \<and> reapUntilChildExit childPID slept (map (\<lambda>(p, ws). Waited p ws) before)
         = (None, slept, [])"
  using reap_skips [OF assms, of slept "[]"]
    reap_skips [OF assms, of slept "Waited childPID ws # rs"]
  by (simp only: reap_child append_Nil2 reapUntilChildExit.simps)

theorem reap_child_outcome_witness:
  "(3 :: int) \<noteq> 7
   \<and> reapUntilChildExit 7 [] [Waited 3 0, Waited 7 0x0700, Waited 9 0]
       = (Some 7, [], [Waited 9 0])"
proof -
  have h: "\<forall>(p, ws) \<in> set [(3 :: int, 0 :: WaitStatus)]. p \<noteq> 7" by simp
  have "spec_status (spec_outcome 0x0700) = 7" by (simp add: spec_outcome_def)
  with reap_child_outcome [OF h, of "[]" "0x0700" "[Waited 9 0]"] h show ?thesis by simp
qed

text \<open>
  C6. A wait call interrupted by a signal is repeated with nothing changed. When no children
  remain the Reaper stops and reports exit code 0. After any other error it pauses for ten
  milliseconds and calls again, however often the error comes back: it never gives up.
\<close>

theorem reaper_error_policy:
  "reapUntilChildExit childPID slept (Wait_error EINTR # rs)
     = reapUntilChildExit childPID slept rs
   \<and> reapUntilChildExit childPID slept (Wait_error ECHILD # rs) = (Some 0, slept, rs)
   \<and> reapUntilChildExit childPID slept (replicate n (Wait_error (Errno e)) @ rs)
       = reapUntilChildExit childPID (slept @ replicate n (10 * int Millisecond)) rs
   \<and> fst (reapUntilChildExit childPID slept (replicate n (Wait_error (Errno e)))) = None"
proof -
  have r: "reapUntilChildExit childPID sl (replicate n (Wait_error (Errno e)) @ rs)
       = reapUntilChildExit childPID (sl @ replicate n (10 * int Millisecond)) rs" for sl rs
    by (induction n arbitrary: sl) (simp_all add: replicate_app_Cons_same)
  from r [of slept "[]"] r [of slept rs] show ?thesis by simp
qed

section \<open>The Supervisor\<close>

lemma SIGCHLD_not_terminate: "\<not> isTerminateSignal (Syscall_Signal SIGCHLD)"
  by (simp add: isTerminateSignal_def SIGCHLD_def SIGTERM_def SIGINT_def SIGQUIT_def SIGHUP_def)

lemma trace_emit: "trace (emit a st) = trace st @ [a]"
  by (simp add: emit_def)

lemma trace_startKillTimer:
  "\<exists>acts. trace (startKillTimer t st) = trace st @ acts
     \<and> set acts \<subseteq> {NewTimer t, StopTimer, DrainTimer, ResetTimer t}"
  by (cases "killTimer st") (auto simp: startKillTimer_def emit_def Let_def)

lemma trace_onceDo:
  "\<exists>acts. trace (onceDo (startKillTimer t) st) = trace st @ acts
     \<and> set acts \<subseteq> {NewTimer t, StopTimer, DrainTimer, ResetTimer t}
     \<and> (acts \<noteq> [] \<longrightarrow> \<not> startOnce st)"
  using trace_startKillTimer [of t st] by (auto simp: onceDo_def)

text \<open>
  C1. In the Supervisor's loop a child-status-change signal (\<^verbatim>\<open>SIGCHLD\<close>) leaves the
  state as it is: it is neither forwarded nor considered for the timer. Every other signal
  number \<open>n\<close> is first sent to \<open>- childPID\<close>, the child's process group, and only then
  is it checked for being a terminate signal: the action the signal adds to the trace first
  is the forwarding, whatever the check does after it, and what follows are actions on the
  timer only, present only when the signal is a terminate signal and the Once has not run.
\<close>

theorem signal_forwarded_before_arming:
  "onEvent up childPID stopTimeout reaped st (Signal_event (Syscall_Signal SIGCHLD)) = Continue st
   \<and> (n \<noteq> SIGCHLD \<longrightarrow>
        onEvent up childPID stopTimeout reaped st (Signal_event (Syscall_Signal n))
          = Continue (onSignal up childPID stopTimeout st (Syscall_Signal n))
        \<and> onSignal up childPID stopTimeout st (Syscall_Signal n)
          = (let st1 = emit (Kill (- childPID) n) st
             in if isTerminateSignal (Syscall_Signal n)
                then onceDo (startKillTimer stopTimeout) st1 else st1)
        \<and> (\<exists>acts. trace (onSignal up childPID stopTimeout st (Syscall_Signal n))
                     = trace st @ Kill (- childPID) n # acts
                 \<and> set acts \<subseteq> {NewTimer stopTimeout, StopTimer, DrainTimer, ResetTimer stopTimeout}
                 \<and> (acts \<noteq> [] \<longrightarrow> isTerminateSignal (Syscall_Signal n) \<and> \<not> startOnce st)))"
proof -
  have a: "onEvent up childPID stopTimeout reaped st (Signal_event (Syscall_Signal SIGCHLD)) = Continue st"
    by (simp add: onEvent_def onSignal_def)
  have b: "onSignal up childPID stopTimeout st (Syscall_Signal n)
          = (let st1 = emit (Kill (- childPID) n) st
             in if isTerminateSignal (Syscall_Signal n)
                then onceDo (startKillTimer stopTimeout) st1 else st1)" if "n \<noteq> SIGCHLD"
    using that by (simp add: onSignal_def toSyscallSignal_def Let_def)
  have c: "\<exists>acts. trace (onSignal up childPID stopTimeout st (Syscall_Signal n))
                     = trace st @ Kill (- childPID) n # acts
                 \<and> set acts \<subseteq> {NewTimer stopTimeout, StopTimer, DrainTimer, ResetTimer stopTimeout}
                 \<and> (acts \<noteq> [] \<longrightarrow> isTerminateSignal (Syscall_Signal n) \<and> \<not> startOnce st)"
    if "n \<noteq> SIGCHLD"
  proof (cases "isTerminateSignal (Syscall_Signal n)")
    case True
    from trace_onceDo [of stopTimeout "emit (Kill (- childPID) n) st"]
    obtain acts where "trace (onceDo (startKillTimer stopTimeout) (emit (Kill (- childPID) n) st))
        = trace (emit (Kill (- childPID) n) st) @ acts"
      and "set acts \<subseteq> {NewTimer stopTimeout, StopTimer, DrainTimer, ResetTimer stopTimeout}"
      and "acts \<noteq> [] \<longrightarrow> \<not> startOnce (emit (Kill (- childPID) n) st)"
      by blast
    with True that show ?thesis
      by (simp add: b Let_def trace_emit emit_def)
  next
    case False
    with that show ?thesis by (simp add: b Let_def trace_emit)
  qed
  from a b c show ?thesis by (simp add: onEvent_def)
qed


theorem signal_forwarded_before_arming_witness:
  "SIGTERM \<noteq> SIGCHLD
   \<and> trace (onSignal id 42 2000000000 (initial []) (Syscall_Signal SIGTERM))
       = [Kill (- 42) SIGTERM, NewTimer 2000000000]"
proof -
  have h: "SIGTERM \<noteq> SIGCHLD" by (simp add: SIGTERM_def SIGCHLD_def)
  note t = signal_forwarded_before_arming [where n = SIGTERM and up = id and childPID = 42
      and stopTimeout = 2000000000 and st = "initial []" and reaped = None]
  from t h have "onSignal id 42 2000000000 (initial []) (Syscall_Signal SIGTERM)
      = (let st1 = emit (Kill (- 42) SIGTERM) (initial [])
         in if isTerminateSignal (Syscall_Signal SIGTERM)
            then onceDo (startKillTimer 2000000000) st1 else st1)"
    by blast
  then have "trace (onSignal id 42 2000000000 (initial []) (Syscall_Signal SIGTERM))
      = [Kill (- 42) SIGTERM, NewTimer 2000000000]"
    by (simp add: isTerminateSignal_def onceDo_def startKillTimer_def emit_def initial_def)
  with h show ?thesis by blast
qed

lemma armings_append: "armings (xs @ ys) = armings xs + armings ys"
  by (simp add: armings_def)

lemma armedOnce_onSignal:
  "armedOnce k st \<Longrightarrow> armedOnce k (onSignal up childPID stopTimeout st s)"
  by (auto simp: armedOnce_def onSignal_def onceDo_def startKillTimer_def emit_def Let_def
        armings_def split: option.splits if_splits)

lemma armings_onEvent:
  assumes a: "armedOnce k st"
  shows "(case onEvent up childPID stopTimeout reaped st ev of
      Continue st' \<Rightarrow> armedOnce k st'
    | Exit st' code \<Rightarrow> armings (trace st') \<le> k + 1
    | Blocked st' \<Rightarrow> armings (trace st') \<le> k + 1)"
proof (cases ev)
  case Done_event
  with a show ?thesis
    by (auto simp: onEvent_def armedOnce_def emit_def armings_def split: option.splits if_splits)
next
  case (Signal_event s)
  with a show ?thesis by (simp add: onEvent_def armedOnce_onSignal)
next
  case Timer_event
  with a show ?thesis
    by (auto simp: onEvent_def armedOnce_def emit_def armings_def Let_def
          split: option.splits if_splits)
qed

lemma armings_loop:
  "armedOnce k st \<Longrightarrow>
   armings (trace (fst (supervisorLoop up childPID stopTimeout reaped st evs))) \<le> k + 1"
proof (induction evs arbitrary: st)
  case Nil
  then show ?case by (auto simp: armedOnce_def split: if_splits)
next
  case (Cons ev evs)
  from armings_onEvent [OF Cons.prems, of up childPID stopTimeout reaped ev] Cons.IH
  show ?case by (auto split: control.splits)
qed

lemma terminate_cases:
  "isTerminateSignal s \<longleftrightarrow> (\<exists>n. s = Syscall_Signal n \<and> n \<in> {SIGTERM, SIGINT, SIGQUIT, SIGHUP})"
  by (auto simp: isTerminateSignal_def)

lemma armings_logged: "armings (map Logged ls) = 0"
  by (induction ls) (simp_all add: armings_def)

text \<open>
  C3. In one run of the Supervisor at most one countdown of the kill timer is ever started.
  The first terminate signal is forwarded and starts the countdown with the configured
  duration. Once that has happened a terminate signal is forwarded to the child's process
  group and changes nothing else: the timer is neither restarted nor re-armed. So the same
  terminate signal delivered twice is forwarded twice and arms the timer once.
\<close>

theorem kill_timer_armed_once:
  "armings (trace (fst (runAsInit fr up env w))) \<le> 1
   \<and> (n \<in> {SIGTERM, SIGINT, SIGQUIT, SIGHUP} \<longrightarrow>
        onSignal up childPID stopTimeout (initial tr) (Syscall_Signal n)
          = \<lparr>startOnce = True, killTimer = Some \<lparr>period = stopTimeout, expired = False\<rparr>,
              trace = tr @ [Kill (- childPID) n, NewTimer stopTimeout]\<rparr>
        \<and> (startOnce st \<longrightarrow>
             onSignal up childPID stopTimeout st (Syscall_Signal n)
               = emit (Kill (- childPID) n) st)
        \<and> fst (supervisorLoop up childPID stopTimeout reaped (initial tr)
                 [Signal_event (Syscall_Signal n), Signal_event (Syscall_Signal n)])
          = \<lparr>startOnce = True, killTimer = Some \<lparr>period = stopTimeout, expired = False\<rparr>,
              trace = tr @ [Kill (- childPID) n, NewTimer stopTimeout, Kill (- childPID) n]\<rparr>)"
proof -
  have a: "armings (trace (fst (runAsInit fr up env w))) \<le> 1"
  proof (cases "started w")
    case (Inl err)
    then show ?thesis by (simp add: runAsInit_def armings_def)
  next
    case (Inr childPID)
    obtain t ls where p: "parseStopTimeout fr env defaultStopTimeout = (t, ls)"
      by (cases "parseStopTimeout fr env defaultStopTimeout")
    have "armedOnce 0 \<lparr>startOnce = False, killTimer = None, trace = map Logged ls\<rparr>"
      by (simp add: armedOnce_def armings_logged)
    from armings_loop [OF this] Inr p show ?thesis
      by (simp add: runAsInit_def Let_def)
  qed
  have ne: "n \<noteq> SIGCHLD" and t: "isTerminateSignal (Syscall_Signal n)"
    if "n \<in> {SIGTERM, SIGINT, SIGQUIT, SIGHUP}"
    using that
    by (auto simp: isTerminateSignal_def SIGCHLD_def SIGTERM_def SIGINT_def SIGQUIT_def SIGHUP_def)
  have b: "onSignal up childPID stopTimeout (initial tr) (Syscall_Signal n)
          = \<lparr>startOnce = True, killTimer = Some \<lparr>period = stopTimeout, expired = False\<rparr>,
              trace = tr @ [Kill (- childPID) n, NewTimer stopTimeout]\<rparr>"
    if "n \<in> {SIGTERM, SIGINT, SIGQUIT, SIGHUP}"
    using ne [OF that] t [OF that]
    by (simp add: onSignal_def toSyscallSignal_def onceDo_def startKillTimer_def emit_def
          initial_def Let_def)
  have c: "onSignal up childPID stopTimeout s (Syscall_Signal n) = emit (Kill (- childPID) n) s"
    if "n \<in> {SIGTERM, SIGINT, SIGQUIT, SIGHUP}" and "startOnce s" for s
    using ne [OF that(1)] t [OF that(1)] that(2)
    by (simp add: onSignal_def toSyscallSignal_def onceDo_def emit_def Let_def)
  have d: "fst (supervisorLoop up childPID stopTimeout reaped (initial tr)
                 [Signal_event (Syscall_Signal n), Signal_event (Syscall_Signal n)])
          = \<lparr>startOnce = True, killTimer = Some \<lparr>period = stopTimeout, expired = False\<rparr>,
              trace = tr @ [Kill (- childPID) n, NewTimer stopTimeout, Kill (- childPID) n]\<rparr>"
    if "n \<in> {SIGTERM, SIGINT, SIGQUIT, SIGHUP}"
    using b [OF that]
      c [of "onSignal up childPID stopTimeout (initial tr) (Syscall_Signal n)", OF that]
    by (simp add: onEvent_def emit_def)
  from a b c d show ?thesis by blast
qed

theorem kill_timer_armed_once_witness:
  "SIGTERM \<in> {SIGTERM, SIGINT, SIGQUIT, SIGHUP}
   \<and> fst (supervisorLoop id 42 2000000000 None (initial [])
            [Signal_event (Syscall_Signal SIGTERM), Signal_event (Syscall_Signal SIGTERM)])
       = \<lparr>startOnce = True, killTimer = Some \<lparr>period = 2000000000, expired = False\<rparr>,
           trace = [Kill (- 42) SIGTERM, NewTimer 2000000000, Kill (- 42) SIGTERM]\<rparr>"
proof -
  have h: "SIGTERM \<in> {SIGTERM, SIGINT, SIGQUIT, SIGHUP}" by simp
  from kill_timer_armed_once [where n = SIGTERM and up = id and childPID = 42
      and stopTimeout = 2000000000 and tr = "[]" and reaped = None] h
  have "fst (supervisorLoop id 42 2000000000 None (initial [])
            [Signal_event (Syscall_Signal SIGTERM), Signal_event (Syscall_Signal SIGTERM)])
       = \<lparr>startOnce = True, killTimer = Some \<lparr>period = 2000000000, expired = False\<rparr>,
           trace = [] @ [Kill (- 42) SIGTERM, NewTimer 2000000000, Kill (- 42) SIGTERM]\<rparr>"
    by blast
  with h show ?thesis by simp
qed

text \<open>
  C8, as the code has it. When \<^verbatim>\<open>cmd.Start()\<close> fails the Supervisor logs the failure
  and exits at once with status 1: nothing is retried, no signal is sent and nothing is
  reaped. Status 1 is not kept for this case: a child that exits with code 1 and a child whose
  wait status is neither an exit nor a kill make the Supervisor exit with status 1 as well.
\<close>

theorem spawn_failure_exits_1:
  "(started w = Inl err \<longrightarrow>
      runAsInit fr up env w
        = (\<lparr>startOnce = False, killTimer = None, trace = [Logged (Start_failed err)]\<rparr>, Some 1))
   \<and> snd (runAsInit fr up env
            \<lparr>started = Inr childPID, waits = [Waited childPID 0x0100], events = [Done_event]\<rparr>)
       = Some 1
   \<and> snd (runAsInit fr up env
            \<lparr>started = Inr childPID, waits = [Waited childPID 0x137F], events = [Done_event]\<rparr>)
       = Some 1"
proof -
  obtain t ls where p: "parseStopTimeout fr env defaultStopTimeout = (t, ls)"
    by (cases "parseStopTimeout fr env defaultStopTimeout")
  have e: "Exited (0x0100 :: WaitStatus)" "ExitStatus (0x0100 :: WaitStatus) = 1"
    "\<not> Exited (0x137F :: WaitStatus)" "\<not> Signaled (0x137F :: WaitStatus)"
    by (simp_all add: Exited_def ExitStatus_def Signaled_def)
  show ?thesis
    by (simp add: runAsInit_def Let_def p onEvent_def e)
qed

theorem spawn_failure_exits_1_witness:
  "started \<lparr>started = Inl ''exec format error'', waits = [], events = []\<rparr>
     = Inl ''exec format error''
   \<and> runAsInit (\<lambda>f u s. 0) id Map.empty
        \<lparr>started = Inl ''exec format error'', waits = [], events = []\<rparr>
       = (\<lparr>startOnce = False, killTimer = None,
            trace = [Logged (Start_failed ''exec format error'')]\<rparr>, Some 1)"
proof -
  have h: "started \<lparr>started = Inl ''exec format error'', waits = [], events = []\<rparr>
     = Inl ''exec format error''" by simp
  from spawn_failure_exits_1 [where w = "\<lparr>started = Inl ''exec format error'', waits = [],
      events = []\<rparr>" and err = "''exec format error''" and fr = "\<lambda>f u s. 0" and up = id
      and env = Map.empty] h
  show ?thesis by blast
qed

text \<open>
  C8 as the specification states it fails: the exit status after a failed spawn is the exit
  status that reports a child which exited with code 1.
\<close>

theorem spawn_failure_code_not_distinct:
  "snd (runAsInit (\<lambda>f u s. 0) id Map.empty
          \<lparr>started = Inl ''exec format error'', waits = [], events = []\<rparr>)
     = snd (runAsInit (\<lambda>f u s. 0) id Map.empty
          \<lparr>started = Inr 42, waits = [Waited 42 0x0100], events = [Done_event]\<rparr>)"
proof -
  obtain t ls where p: "parseStopTimeout (\<lambda>f u s. 0) Map.empty defaultStopTimeout = (t, ls)"
    by (cases "parseStopTimeout (\<lambda>f u s. 0) Map.empty defaultStopTimeout")
  have e: "Exited (0x0100 :: WaitStatus)" "ExitStatus (0x0100 :: WaitStatus) = 1"
    by (simp_all add: Exited_def ExitStatus_def)
  show ?thesis
    by (simp add: runAsInit_def Let_def p onEvent_def e)
qed

section \<open>The stop timeout\<close>

lemma byte_zero_nine: "byte CHR ''0'' = 48" "byte CHR ''9'' = 57"
  by (simp_all add: byte_def)

lemma allDigitsLoop_iff: "allDigitsLoop s \<longleftrightarrow> (\<forall>c \<in> set s. digit c)"
  by (induction s) (auto simp: digit_def byte_zero_nine)

lemma isAllDigits_iff: "isAllDigits s \<longleftrightarrow> s \<noteq> [] \<and> (\<forall>c \<in> set s. digit c)"
  by (simp add: isAllDigits_def allDigitsLoop_iff)

lemma decimal_simps:
  "decimal x [] = x"
  "decimal x (c # cs) = decimal (x * 10 + (byte c - 48)) cs"
  by (simp_all add: decimal_def byte_zero_nine)

lemma decimal_ge: "x \<le> decimal x s"
proof (induction s arbitrary: x)
  case Nil
  show ?case by (simp add: decimal_simps)
next
  case (Cons c cs)
  have "x \<le> x * 10 + (byte c - 48)" by simp
  also have "\<dots> \<le> decimal (x * 10 + (byte c - 48)) cs" by (rule Cons.IH)
  finally show ?case by (simp add: decimal_simps)
qed


lemma leadingIntLoop_step:
  assumes d: "digit d"
  shows "leadingIntLoop x (d # cs)
         = (if x > 2 ^ 63 div 10 then None
            else if x * 10 + (byte d - 48) > 2 ^ 63 then None
            else leadingIntLoop (x * 10 + (byte d - 48)) cs)"
proof -
  from d have e: "x * 10 + byte d - 48 = x * 10 + (byte d - 48)"
    by (simp add: digit_def)
  from d have n: "\<not> (byte d < 48 \<or> byte d > 57)" by (auto simp: digit_def)
  show ?thesis
    unfolding leadingIntLoop.simps Let_def byte_zero_nine e
    using n by (simp only: if_False)
qed

lemma leadingIntLoop_stop:
  "\<not> digit r \<Longrightarrow> leadingIntLoop x (r # rest) = Some (x, r # rest)"
  by (auto simp: digit_def byte_zero_nine)

lemma leadingIntLoop_digits:
  assumes "\<forall>c \<in> set ds. digit c" and "\<not> digit r" and "x \<le> 2 ^ 63"
  shows "leadingIntLoop x (ds @ r # rest)
         = (if decimal x ds \<le> 2 ^ 63 then Some (decimal x ds, r # rest) else None)"
  using assms
proof (induction ds arbitrary: x)
  case Nil
  then show ?case by (simp add: decimal_simps leadingIntLoop_stop del: leadingIntLoop.simps)
next
  case (Cons d ds)
  define y where "y = x * 10 + (byte d - 48)"
  from Cons.prems have d: "digit d" by simp
  have step: "leadingIntLoop x ((d # ds) @ r # rest)
      = (if x > 2 ^ 63 div 10 then None else if y > 2 ^ 63 then None
         else leadingIntLoop y (ds @ r # rest))"
    unfolding y_def append_Cons by (rule leadingIntLoop_step [OF d])
  have dec: "decimal x (d # ds) = decimal y ds"
    unfolding y_def by (simp add: decimal_simps)
  have ge: "y \<le> decimal y ds" by (rule decimal_ge)
  have big: "y > 2 ^ 63" if "x > 2 ^ 63 div 10"
    using that unfolding y_def by simp
  have ih: "leadingIntLoop y (ds @ r # rest)
         = (if decimal y ds \<le> 2 ^ 63 then Some (decimal y ds, r # rest) else None)"
    if "y \<le> 2 ^ 63"
    using Cons.IH [OF _ Cons.prems(2) that] Cons.prems(1) by simp
  show ?case
  proof (cases "y > 2 ^ 63")
    case True
    with ge have "\<not> decimal y ds \<le> 2 ^ 63" by simp
    with True show ?thesis unfolding step dec by simp
  next
    case False
    with big have "\<not> x > 2 ^ 63 div 10" by blast
    moreover from False have "y \<le> 2 ^ 63" by simp
    ultimately show ?thesis unfolding step dec using False ih by simp
  qed
qed


lemma Second_value: "Second = 1000000000"
  by (simp add: Second_def Millisecond_def Microsecond_def Nanosecond_def)

lemma not_digit_s: "\<not> digit CHR ''s''" "\<not> numberChar CHR ''s''"
  by (simp_all add: digit_def numberChar_def byte_def)

lemma digit_numberChar: "digit c \<Longrightarrow> numberChar c"
  by (simp add: digit_def numberChar_def byte_zero_nine)

lemma digit_not_sign: "digit c \<Longrightarrow> c \<noteq> CHR ''-'' \<and> c \<noteq> CHR ''+''"
  by (auto simp: digit_def byte_def)

lemma unitMap_s: "unitMap ''s'' = Some Second"
  by (simp add: unitMap_def)

lemma leadingInt_seconds:
  assumes "\<forall>c \<in> set ds. digit c"
  shows "leadingInt (ds @ ''s'')
         = (if decimal 0 ds \<le> 2 ^ 63 then Some (decimal 0 ds, ''s'') else None)"
  unfolding leadingInt_def
  using leadingIntLoop_digits [OF assms not_digit_s(1), of 0 "[]"] by simp

lemma parseTerm_seconds:
  assumes ds: "\<forall>c \<in> set ds. digit c" and ne: "ds \<noteq> []"
  shows "parseTerm fr (ds @ ''s'')
         = (if decimal 0 ds \<le> maxSeconds then Some (decimal 0 ds * Second, []) else None)"
proof -
  define v where "v = decimal 0 ds"
  from ne obtain d ds' where c: "ds = d # ds'" by (cases ds) auto
  with ds have "numberChar d" by (simp add: digit_numberChar)
  with c have hd: "(case ds @ ''s'' of [] \<Rightarrow> None | c0 # x \<Rightarrow> if \<not> numberChar c0 then None else F)
      = F" for F :: "(nat \<times> string) option"
    by simp
  have li: "leadingInt (ds @ ''s'') = (if v \<le> 2 ^ 63 then Some (v, ''s'') else None)"
    unfolding v_def by (rule leadingInt_seconds [OF ds])
  have len: "length (ds @ ''s'') \<noteq> length ''s''" using ne by simp
  have m: "(v \<le> maxSeconds) = (v \<le> 2 ^ 63 \<and> \<not> v > 2 ^ 63 div Second)"
    by (auto simp: maxSeconds_def Second_value)
  show ?thesis
    unfolding parseTerm_def hd li v_def [symmetric] m
    using len by (simp add: not_digit_s unitMap_s Let_def)
qed


lemma parseTerms_Nil: "parseTerms fr d [] = Some d"
  by simp

lemma parseTerms_seconds:
  assumes ds: "\<forall>c \<in> set ds. digit c" and ne: "ds \<noteq> []"
  shows "parseTerms fr 0 (ds @ ''s'')
         = (if decimal 0 ds \<le> maxSeconds then Some (decimal 0 ds * Second) else None)"
proof (cases "decimal 0 ds \<le> maxSeconds")
  case True
  then have "decimal 0 ds * Second \<le> maxSeconds * Second" by simp
  then have b: "decimal 0 ds * Second \<le> 9223372036000000000"
    by (simp add: maxSeconds_def Second_value)
  then have "(0 + decimal 0 ds * Second) mod 2 ^ 64 = decimal 0 ds * Second" by simp
  moreover from b have "\<not> decimal 0 ds * Second > 2 ^ 63" by simp
  ultimately show ?thesis
    using True parseTerm_seconds [OF ds ne, of fr]
    by (subst parseTerms.simps) (simp add: Let_def del: parseTerms.simps add: parseTerms_Nil)
next
  case False
  with parseTerm_seconds [OF ds ne, of fr] show ?thesis
    by (subst parseTerms.simps) (simp del: parseTerms.simps)
qed

lemma ParseDuration_seconds:
  assumes ds: "\<forall>c \<in> set ds. digit c" and ne: "ds \<noteq> []"
  shows "ParseDuration fr (ds @ ''s'')
         = (if decimal 0 ds \<le> maxSeconds then Some (int (decimal 0 ds) * int Second) else None)"
proof -
  from ne obtain d ds' where c: "ds = d # ds'" by (cases ds) auto
  with ds have "d \<noteq> CHR ''-'' \<and> d \<noteq> CHR ''+''" by (simp add: digit_not_sign)
  with c have sign: "(case ds @ ''s'' of [] \<Rightarrow> (False, ds @ ''s'')
        | c # cs \<Rightarrow> if c = CHR ''-'' \<or> c = CHR ''+'' then (c = CHR ''-'', cs)
                    else (False, ds @ ''s'')) = (False, ds @ ''s'')"
    by simp
  have z: "ds @ ''s'' \<noteq> ''0''" "ds @ ''s'' \<noteq> []" using ne by (cases ds; simp)+
  show ?thesis
  proof (cases "decimal 0 ds \<le> maxSeconds")
    case True
    then have "decimal 0 ds * Second \<le> maxSeconds * Second" by simp
    then have "\<not> decimal 0 ds * Second > 2 ^ 63 - 1"
      by (simp add: maxSeconds_def Second_value)
    with True z show ?thesis
      unfolding ParseDuration_def sign Let_def prod.case
      by (simp add: parseTerms_seconds [OF ds ne] del: parseTerms.simps)
  next
    case False
    with z show ?thesis
      unfolding ParseDuration_def sign Let_def prod.case
      by (simp add: parseTerms_seconds [OF ds ne] del: parseTerms.simps)
  qed
qed


lemma space_lengths:
  "r \<in> set space1 \<Longrightarrow> length r = 1"
  "r \<in> set space2 \<Longrightarrow> length r = 2"
  "r \<in> set space3 \<Longrightarrow> length r = 3"
  by (auto simp: space1_def space2_def space3_def)

lemma digit_plain: "digit c \<Longrightarrow> plain c"
  by (simp add: digit_def plain_def)

lemma space_not_plain:
  "r \<in> set spaceRunes \<Longrightarrow> \<not> plain (hd r) \<and> \<not> plain (last r)"
  by (auto simp: spaceRunes_def space1_def space2_def space3_def plain_def byte_def)


lemma space_disjoint:
  "r \<in> set space2 \<Longrightarrow> take 1 r \<notin> set space1 \<and> drop 1 r \<notin> set space1"
  "r \<in> set space3 \<Longrightarrow> take 1 r \<notin> set space1 \<and> drop 2 r \<notin> set space1"
  "r \<in> set space3 \<Longrightarrow> take 2 r \<notin> set space2 \<and> drop 1 r \<notin> set space2"
  by (auto simp: space1_def space2_def space3_def)

lemma hd_take: "take n s = r \<Longrightarrow> r \<noteq> [] \<Longrightarrow> hd s = hd r"
  by (cases s; cases n) auto

lemma spaceLen_Nil: "spaceLen [] = 0" "spaceLenRev [] = 0"
  by (simp_all add: spaceLen_def spaceLenRev_def space1_def space2_def space3_def)

lemma spaceLen_nonzero:
  "spaceLen s \<noteq> 0 \<Longrightarrow> \<exists>n. take n s \<in> set spaceRunes"
  by (auto simp: spaceLen_def spaceRunes_def split: if_splits)

lemma spaceLenRev_nonzero:
  "spaceLenRev s \<noteq> 0 \<Longrightarrow> \<exists>n. rev (take n s) \<in> set spaceRunes"
  by (auto simp: spaceLenRev_def spaceRunes_def split: if_splits)

lemma rune_nonempty: "r \<in> set spaceRunes \<Longrightarrow> r \<noteq> []"
  by (auto simp: spaceRunes_def dest: space_lengths)

lemma spaceLen_plain:
  assumes "plain c"
  shows "spaceLen (c # s) = 0"
proof (rule ccontr)
  assume "spaceLen (c # s) \<noteq> 0"
  then obtain n where r: "take n (c # s) \<in> set spaceRunes"
    using spaceLen_nonzero by blast
  then have "take n (c # s) \<noteq> []" by (rule rune_nonempty)
  with hd_take [of n "c # s" "take n (c # s)"] have "hd (take n (c # s)) = c" by simp
  with space_not_plain [OF r] assms show False by simp
qed

lemma spaceLenRev_plain:
  assumes "plain c"
  shows "spaceLenRev (c # s) = 0"
proof (rule ccontr)
  assume "spaceLenRev (c # s) \<noteq> 0"
  then obtain n where r: "rev (take n (c # s)) \<in> set spaceRunes"
    using spaceLenRev_nonzero by blast
  then have ne: "take n (c # s) \<noteq> []" using rune_nonempty by fastforce
  with hd_take [of n "c # s" "take n (c # s)"] have "hd (take n (c # s)) = c" by simp
  with ne have "last (rev (take n (c # s))) = c" by (simp add: last_rev)
  with space_not_plain [OF r] assms show False by simp
qed

lemma spaceLen_rune:
  assumes "r \<in> set spaceRunes"
  shows "spaceLen (r @ s) = length r"
proof -
  from assms consider "r \<in> set space1" | "r \<in> set space2" | "r \<in> set space3"
    by (auto simp: spaceRunes_def)
  then show ?thesis
  proof cases
    case 1
    with space_lengths(1) [OF 1] show ?thesis by (simp add: spaceLen_def)
  next
    case 2
    with space_lengths(2) [OF 2] space_disjoint(1) [OF 2] show ?thesis
      by (simp add: spaceLen_def)
  next
    case 3
    with space_lengths(3) [OF 3] space_disjoint(2) [OF 3] space_disjoint(3) [OF 3]
    show ?thesis by (simp add: spaceLen_def)
  qed
qed

lemma spaceLenRev_rune:
  assumes "r \<in> set spaceRunes"
  shows "spaceLenRev (rev r @ s) = length r"
proof -
  from assms consider "r \<in> set space1" | "r \<in> set space2" | "r \<in> set space3"
    by (auto simp: spaceRunes_def)
  then show ?thesis
  proof cases
    case 1
    with space_lengths(1) [OF 1] show ?thesis by (simp add: spaceLenRev_def)
  next
    case 2
    with space_lengths(2) [OF 2] space_disjoint(1) [OF 2] show ?thesis
      by (simp add: spaceLenRev_def rev_take)
  next
    case 3
    with space_lengths(3) [OF 3] space_disjoint(2) [OF 3] space_disjoint(3) [OF 3]
    show ?thesis by (simp add: spaceLenRev_def rev_take)
  qed
qed


lemma trimLeft_Nil: "trimLeft [] = []"
  by (subst trimLeft.simps) (simp add: spaceLen_Nil del: trimLeft.simps)

lemma trimRightRev_Nil: "trimRightRev [] = []"
  by (subst trimRightRev.simps) (simp add: spaceLen_Nil del: trimRightRev.simps)

lemma trimLeft_plain: "plain c \<Longrightarrow> trimLeft (c # s) = c # s"
  by (subst trimLeft.simps) (simp add: spaceLen_plain del: trimLeft.simps)

lemma trimRightRev_plain: "plain c \<Longrightarrow> trimRightRev (c # s) = c # s"
  by (subst trimRightRev.simps) (simp add: spaceLenRev_plain del: trimRightRev.simps)

lemma trimLeft_rune: "r \<in> set spaceRunes \<Longrightarrow> trimLeft (r @ s) = trimLeft s"
  by (subst trimLeft.simps) (simp add: spaceLen_rune rune_nonempty del: trimLeft.simps)

lemma trimRightRev_rune: "r \<in> set spaceRunes \<Longrightarrow> trimRightRev (rev r @ s) = trimRightRev s"
proof -
  assume r: "r \<in> set spaceRunes"
  have "drop (length r) (rev r @ s) = s" by simp
  with spaceLenRev_rune [OF r, of s] rune_nonempty [OF r] show ?thesis
    by (subst trimRightRev.simps) (simp del: trimRightRev.simps)
qed

lemma trimLeft_concat:
  "set rs \<subseteq> set spaceRunes \<Longrightarrow> trimLeft (concat rs @ s) = trimLeft s"
  by (induction rs) (simp_all add: trimLeft_rune del: trimLeft.simps)

lemma trimRightRev_concat:
  "set rs \<subseteq> set spaceRunes \<Longrightarrow> trimRightRev (rev (concat rs) @ s) = trimRightRev s"
  by (induction rs rule: rev_induct) (simp_all add: trimRightRev_rune del: trimRightRev.simps)

lemma TrimSpace_plain:
  assumes "s \<noteq> []" and "plain (hd s)" and "plain (last s)"
    and "set rs1 \<subseteq> set spaceRunes" and "set rs2 \<subseteq> set spaceRunes"
  shows "TrimSpace (concat rs1 @ s @ concat rs2) = s"
proof -
  from assms(1,2) have "trimLeft (s @ concat rs2) = s @ concat rs2"
    by (cases s) (simp_all add: trimLeft_plain del: trimLeft.simps)
  with trimLeft_concat [OF assms(4), of "s @ concat rs2"]
  have l: "trimLeft (concat rs1 @ s @ concat rs2) = s @ concat rs2" by simp
  from assms(1,3) have "trimRightRev (rev s) = rev s"
    by (cases s rule: rev_cases) (simp_all add: trimRightRev_plain del: trimRightRev.simps)
  with trimRightRev_concat [OF assms(5), of "rev s"]
  have "trimRight (s @ concat rs2) = s" by (simp add: trimRight_def)
  with l show ?thesis by (simp add: TrimSpace_def)
qed

lemma TrimSpace_spaces:
  assumes "set rs \<subseteq> set spaceRunes"
  shows "TrimSpace (concat rs) = []"
  using trimLeft_concat [OF assms, of "[]"]
  by (simp add: TrimSpace_def trimRight_def trimLeft_Nil trimRightRev_Nil
        del: trimLeft.simps trimRightRev.simps)

lemma TrimSpace_plain_only:
  "s \<noteq> [] \<Longrightarrow> plain (hd s) \<Longrightarrow> plain (last s) \<Longrightarrow> TrimSpace s = s"
  using TrimSpace_plain [of s "[]" "[]"] by simp

lemma TrimSpace_Nil: "TrimSpace [] = []"
  using TrimSpace_spaces [of "[]"] by simp

lemma digitsVal_decimal: "digitsVal s = decimal 0 s"
  by (simp add: digitsVal_def decimal_def)

lemma parseStopTimeout_digits:
  assumes "isAllDigits ds" and "TrimSpace (Getenv env stopTimeoutEnv) = ds"
  shows "parseStopTimeout fr env def
         = (if digitsVal ds \<le> maxSeconds then (int (digitsVal ds) * int Second, [])
            else (def, [Invalid_timeout (ds @ ''s'') def]))"
proof -
  from assms(1) have ne: "ds \<noteq> []" and ds: "\<forall>c \<in> set ds. digit c"
    by (simp_all add: isAllDigits_iff)
  have nn: "\<not> int (decimal 0 ds) * int Second < 0"
    by (simp add: not_less zero_le_mult_iff)
  from assms ne nn show ?thesis
    by (simp add: parseStopTimeout_def Let_def ParseDuration_seconds [OF ds ne]
          digitsVal_decimal)
qed

lemma parse_examples:
  "ParseDuration fr ''1m15s'' = Some (75 * int Second)"
  "ParseDuration fr ''bogus'' = None"
  "ParseDuration fr ''-2s'' = Some (- 2 * int Second)"
  by (simp_all add: ParseDuration_def parseTerm_def leadingInt_def leadingFraction_def
        numberChar_def unitMap_def byte_def Let_def Second_def Minute_def Millisecond_def
        Microsecond_def Nanosecond_def)

text \<open>
  C5, as the code has it. For every value of \<^verbatim>\<open>PSI_STOP_TIMEOUT\<close>: unset or empty
  gives the default, without a warning. A value of decimal digits only gives that many
  seconds when the number is at most \<open>maxSeconds\<close>, the most a duration holds; a larger one
  does not parse and gives the default with a warning. Any other value is parsed as a
  duration expression: when that fails or the duration is negative the default is used and a
  warning is logged, and otherwise the duration is the result. So \<^verbatim>\<open>12\<close> is 12 seconds,
  \<^verbatim>\<open>1m15s\<close> is 75 seconds, \<^verbatim>\<open>bogus\<close> and \<^verbatim>\<open>-2s\<close> give the default with a
  warning, and the default of the Supervisor is 30 seconds. The function is total: parsing
  never aborts.
\<close>

theorem parseStopTimeout_cases:
  "(Getenv env stopTimeoutEnv = [] \<longrightarrow> parseStopTimeout fr env def = (def, []))
   \<and> (isAllDigits (Getenv env stopTimeoutEnv) \<longrightarrow>
        parseStopTimeout fr env def
          = (if digitsVal (Getenv env stopTimeoutEnv) \<le> maxSeconds
             then (int (digitsVal (Getenv env stopTimeoutEnv)) * int Second, [])
             else (def, [Invalid_timeout (Getenv env stopTimeoutEnv @ ''s'') def])))
   \<and> (TrimSpace (Getenv env stopTimeoutEnv) \<noteq> []
        \<and> \<not> isAllDigits (TrimSpace (Getenv env stopTimeoutEnv)) \<longrightarrow>
        parseStopTimeout fr env def
          = (case ParseDuration fr (TrimSpace (Getenv env stopTimeoutEnv)) of
               None \<Rightarrow> (def, [Invalid_timeout (TrimSpace (Getenv env stopTimeoutEnv)) def])
             | Some d \<Rightarrow>
                 if d < 0
                 then (def, [Invalid_timeout (TrimSpace (Getenv env stopTimeoutEnv)) def])
                 else (d, [])))
   \<and> parseStopTimeout fr [stopTimeoutEnv \<mapsto> ''12''] def = (12 * int Second, [])
   \<and> parseStopTimeout fr [stopTimeoutEnv \<mapsto> ''1m15s''] def = (75 * int Second, [])
   \<and> parseStopTimeout fr [stopTimeoutEnv \<mapsto> ''bogus''] def
       = (def, [Invalid_timeout ''bogus'' def])
   \<and> parseStopTimeout fr [stopTimeoutEnv \<mapsto> ''-2s''] def = (def, [Invalid_timeout ''-2s'' def])
   \<and> EffectiveTimeout fr Map.empty = 30 * int Second
   \<and> (fst (parseStopTimeout fr env def) = def \<or> 0 \<le> fst (parseStopTimeout fr env def))"
proof -
  have a: "parseStopTimeout fr env def = (def, [])" if "Getenv env stopTimeoutEnv = []"
    using that by (simp add: parseStopTimeout_def TrimSpace_Nil)
  have b: "parseStopTimeout fr env def
          = (if digitsVal (Getenv env stopTimeoutEnv) \<le> maxSeconds
             then (int (digitsVal (Getenv env stopTimeoutEnv)) * int Second, [])
             else (def, [Invalid_timeout (Getenv env stopTimeoutEnv @ ''s'') def]))"
    if d: "isAllDigits (Getenv env stopTimeoutEnv)"
  proof -
    let ?v = "Getenv env stopTimeoutEnv"
    from d have "?v \<noteq> []" and "\<forall>c \<in> set ?v. digit c" by (simp_all add: isAllDigits_iff)
    then have "plain (hd ?v)" and "plain (last ?v)" by (simp_all add: digit_plain)
    with \<open>?v \<noteq> []\<close> have "TrimSpace ?v = ?v" by (simp add: TrimSpace_plain_only)
    from parseStopTimeout_digits [OF d this] show ?thesis .
  qed
  have c: "parseStopTimeout fr env def
          = (case ParseDuration fr (TrimSpace (Getenv env stopTimeoutEnv)) of
               None \<Rightarrow> (def, [Invalid_timeout (TrimSpace (Getenv env stopTimeoutEnv)) def])
             | Some d \<Rightarrow>
                 if d < 0
                 then (def, [Invalid_timeout (TrimSpace (Getenv env stopTimeoutEnv)) def])
                 else (d, []))"
    if "TrimSpace (Getenv env stopTimeoutEnv) \<noteq> []"
      and "\<not> isAllDigits (TrimSpace (Getenv env stopTimeoutEnv))"
    using that by (simp add: parseStopTimeout_def Let_def)
  have t: "TrimSpace ''12'' = ''12''" "TrimSpace ''1m15s'' = ''1m15s''"
    "TrimSpace ''bogus'' = ''bogus''" "TrimSpace ''-2s'' = ''-2s''"
    by (simp_all add: TrimSpace_plain_only plain_def byte_def)
  have g: "Getenv [stopTimeoutEnv \<mapsto> v] stopTimeoutEnv = v" for v
    by (simp add: Getenv_def)
  have e1: "parseStopTimeout fr [stopTimeoutEnv \<mapsto> ''12''] def = (12 * int Second, [])"
    using parseStopTimeout_digits [of "''12''" "[stopTimeoutEnv \<mapsto> ''12'']" fr def]
    by (simp add: g t isAllDigits_def byte_def digitsVal_def maxSeconds_def)
  have e2: "parseStopTimeout fr [stopTimeoutEnv \<mapsto> ''1m15s''] def = (75 * int Second, [])"
    by (simp add: parseStopTimeout_def g t isAllDigits_def byte_def parse_examples Second_value)
  have e3: "parseStopTimeout fr [stopTimeoutEnv \<mapsto> ''bogus''] def
       = (def, [Invalid_timeout ''bogus'' def])"
    by (simp add: parseStopTimeout_def g t isAllDigits_def byte_def parse_examples)
  have e4: "parseStopTimeout fr [stopTimeoutEnv \<mapsto> ''-2s''] def
       = (def, [Invalid_timeout ''-2s'' def])"
    by (simp add: parseStopTimeout_def g t isAllDigits_def byte_def parse_examples Second_value)
  have e5: "EffectiveTimeout fr Map.empty = 30 * int Second"
    by (simp add: EffectiveTimeout_def parseStopTimeout_def Getenv_def TrimSpace_Nil
          defaultStopTimeout_def)
  have f: "fst (parseStopTimeout fr env def) = def \<or> 0 \<le> fst (parseStopTimeout fr env def)"
    by (simp add: parseStopTimeout_def Let_def split: option.splits)
  from a b c e1 e2 e3 e4 e5 f show ?thesis by blast
qed

theorem parseStopTimeout_cases_witness:
  "Getenv (Map.empty :: environ) stopTimeoutEnv = []
   \<and> parseStopTimeout (\<lambda>f u s. 0) Map.empty 5 = (5, [])
   \<and> isAllDigits (Getenv [stopTimeoutEnv \<mapsto> ''45''] stopTimeoutEnv)
   \<and> parseStopTimeout (\<lambda>f u s. 0) [stopTimeoutEnv \<mapsto> ''45''] 5 = (45000000000, [])
   \<and> TrimSpace (Getenv [stopTimeoutEnv \<mapsto> ''bogus''] stopTimeoutEnv) \<noteq> []
   \<and> \<not> isAllDigits (TrimSpace (Getenv [stopTimeoutEnv \<mapsto> ''bogus''] stopTimeoutEnv))
   \<and> parseStopTimeout (\<lambda>f u s. 0) [stopTimeoutEnv \<mapsto> ''bogus''] 5
       = (5, [Invalid_timeout ''bogus'' 5])"
proof -
  have g: "Getenv [stopTimeoutEnv \<mapsto> v] stopTimeoutEnv = v" for v
    by (simp add: Getenv_def)
  have h1: "Getenv (Map.empty :: environ) stopTimeoutEnv = []" by (simp add: Getenv_def)
  have h2: "isAllDigits (Getenv [stopTimeoutEnv \<mapsto> ''45''] stopTimeoutEnv)"
    by (simp add: g isAllDigits_def byte_def)
  have t: "TrimSpace ''bogus'' = ''bogus''"
    by (simp add: TrimSpace_plain_only plain_def byte_def)
  have h3: "TrimSpace (Getenv [stopTimeoutEnv \<mapsto> ''bogus''] stopTimeoutEnv) \<noteq> []"
    by (simp add: g t)
  have h4: "\<not> isAllDigits (TrimSpace (Getenv [stopTimeoutEnv \<mapsto> ''bogus''] stopTimeoutEnv))"
    by (simp add: g t isAllDigits_def byte_def)
  have v: "digitsVal ''45'' = 45" "(45::nat) \<le> maxSeconds"
    by (simp_all add: digitsVal_def byte_def maxSeconds_def)
  from parseStopTimeout_cases [where env = Map.empty and fr = "\<lambda>f u s. 0" and def = 5] h1
  have r1: "parseStopTimeout (\<lambda>f u s. 0) Map.empty 5 = (5, [])" by blast
  from parseStopTimeout_cases [where env = "[stopTimeoutEnv \<mapsto> ''45'']"
      and fr = "\<lambda>f u s. 0" and def = 5] h2
  have "parseStopTimeout (\<lambda>f u s. 0) [stopTimeoutEnv \<mapsto> ''45''] 5
      = (if digitsVal (Getenv [stopTimeoutEnv \<mapsto> ''45''] stopTimeoutEnv) \<le> maxSeconds
         then (int (digitsVal (Getenv [stopTimeoutEnv \<mapsto> ''45''] stopTimeoutEnv)) * int Second, [])
         else (5, [Invalid_timeout (Getenv [stopTimeoutEnv \<mapsto> ''45''] stopTimeoutEnv @ ''s'') 5]))"
    by blast
  then have r2: "parseStopTimeout (\<lambda>f u s. 0) [stopTimeoutEnv \<mapsto> ''45''] 5 = (45000000000, [])"
    by (simp add: g v Second_value)
  from parseStopTimeout_cases [where env = "[stopTimeoutEnv \<mapsto> ''bogus'']"
      and fr = "\<lambda>f u s. 0" and def = 5] h3 h4
  have "parseStopTimeout (\<lambda>f u s. 0) [stopTimeoutEnv \<mapsto> ''bogus''] 5
      = (case ParseDuration (\<lambda>f u s. 0)
                (TrimSpace (Getenv [stopTimeoutEnv \<mapsto> ''bogus''] stopTimeoutEnv)) of
           None \<Rightarrow> (5, [Invalid_timeout
                           (TrimSpace (Getenv [stopTimeoutEnv \<mapsto> ''bogus''] stopTimeoutEnv)) 5])
         | Some d \<Rightarrow>
             if d < 0
             then (5, [Invalid_timeout
                         (TrimSpace (Getenv [stopTimeoutEnv \<mapsto> ''bogus''] stopTimeoutEnv)) 5])
             else (d, []))"
    by blast
  then have r3: "parseStopTimeout (\<lambda>f u s. 0) [stopTimeoutEnv \<mapsto> ''bogus''] 5
       = (5, [Invalid_timeout ''bogus'' 5])"
    by (simp add: g t parse_examples)
  from h1 h2 h3 h4 r1 r2 r3 show ?thesis by blast
qed

text \<open>
  C5 as the specification states it fails: \<^verbatim>\<open>9223372037\<close> consists of decimal digits only,
  and the result is the default with a warning, not that many seconds.
\<close>

theorem digits_beyond_duration:
  "isAllDigits ''9223372037''
   \<and> parseStopTimeout (\<lambda>f u s. 0) [stopTimeoutEnv \<mapsto> ''9223372037''] defaultStopTimeout
       = (defaultStopTimeout, [Invalid_timeout ''9223372037s'' defaultStopTimeout])
   \<and> defaultStopTimeout \<noteq> 9223372037 * int Second"
proof -
  have d: "isAllDigits ''9223372037''" by (simp add: isAllDigits_def byte_def)
  have t: "TrimSpace (Getenv [stopTimeoutEnv \<mapsto> ''9223372037''] stopTimeoutEnv) = ''9223372037''"
    by (simp add: Getenv_def TrimSpace_plain_only plain_def byte_def)
  have v: "\<not> digitsVal ''9223372037'' \<le> maxSeconds"
    by (simp add: digitsVal_def byte_def maxSeconds_def)
  from parseStopTimeout_digits [OF d t, of "\<lambda>f u s. 0" defaultStopTimeout] v d
  show ?thesis by (simp add: defaultStopTimeout_def Second_value)
qed

text \<open>
  C10, as the code has it. The value is trimmed of white space on both sides before it is
  classified. A value that is decimal digits with white space around them gives that many
  seconds when the number is at most \<open>maxSeconds\<close>, and the default with a warning when it
  is larger. A value of white space only is taken as empty: the default, without a warning.
\<close>

theorem parseStopTimeout_trims:
  assumes "set rs1 \<subseteq> set spaceRunes" and "set rs2 \<subseteq> set spaceRunes"
  shows "(isAllDigits ds \<and> env stopTimeoutEnv = Some (concat rs1 @ ds @ concat rs2) \<longrightarrow>
            parseStopTimeout fr env def
              = (if digitsVal ds \<le> maxSeconds then (int (digitsVal ds) * int Second, [])
                 else (def, [Invalid_timeout (ds @ ''s'') def])))
         \<and> (env stopTimeoutEnv = Some (concat rs1) \<longrightarrow> parseStopTimeout fr env def = (def, []))"
proof -
  have a: "parseStopTimeout fr env def
              = (if digitsVal ds \<le> maxSeconds then (int (digitsVal ds) * int Second, [])
                 else (def, [Invalid_timeout (ds @ ''s'') def]))"
    if d: "isAllDigits ds" and e: "env stopTimeoutEnv = Some (concat rs1 @ ds @ concat rs2)"
  proof -
    from d have "ds \<noteq> []" and "\<forall>c \<in> set ds. digit c" by (simp_all add: isAllDigits_iff)
    then have "plain (hd ds)" and "plain (last ds)" by (simp_all add: digit_plain)
    from TrimSpace_plain [OF \<open>ds \<noteq> []\<close> this assms] e
    have "TrimSpace (Getenv env stopTimeoutEnv) = ds" by (simp add: Getenv_def)
    from parseStopTimeout_digits [OF d this] show ?thesis .
  qed
  have b: "parseStopTimeout fr env def = (def, [])" if "env stopTimeoutEnv = Some (concat rs1)"
    using that TrimSpace_spaces [OF assms(1)] by (simp add: parseStopTimeout_def Getenv_def)
  from a b show ?thesis by blast
qed

theorem parseStopTimeout_trims_witness:
  "set [[CHR 0x20]] \<subseteq> set spaceRunes \<and> set [[CHR 0x09], [CHR 0xC2, CHR 0xA0]] \<subseteq> set spaceRunes
   \<and> isAllDigits ''12''
   \<and> parseStopTimeout (\<lambda>f u s. 0) [stopTimeoutEnv \<mapsto> [CHR 0x20, CHR ''1'', CHR ''2'', CHR 0x09, CHR 0xC2, CHR 0xA0]] 5
       = (12000000000, [])
   \<and> parseStopTimeout (\<lambda>f u s. 0) [stopTimeoutEnv \<mapsto> [CHR 0x20]] 5 = (5, [])"
proof -
  have h1: "set [[CHR 0x20]] \<subseteq> set spaceRunes"
    by (simp add: spaceRunes_def space1_def)
  have h2: "set [[CHR 0x09], [CHR 0xC2, CHR 0xA0]] \<subseteq> set spaceRunes"
    by (simp add: spaceRunes_def space1_def space2_def)
  have d: "isAllDigits ''12''" by (simp add: isAllDigits_def byte_def)
  have v: "digitsVal ''12'' = 12" "(12::nat) \<le> maxSeconds"
    by (simp_all add: digitsVal_def byte_def maxSeconds_def)
  note t = parseStopTimeout_trims [OF h1 h2, where fr = "\<lambda>f u s. 0" and def = 5]
  have e1: "[stopTimeoutEnv \<mapsto> [CHR 0x20, CHR ''1'', CHR ''2'', CHR 0x09, CHR 0xC2, CHR 0xA0]]
      stopTimeoutEnv = Some (concat [[CHR 0x20]] @ ''12'' @ concat [[CHR 0x09], [CHR 0xC2, CHR 0xA0]])"
    by simp
  from t [where ds = "''12''" and env = "[stopTimeoutEnv \<mapsto>
      [CHR 0x20, CHR ''1'', CHR ''2'', CHR 0x09, CHR 0xC2, CHR 0xA0]]"] d e1
  have "parseStopTimeout (\<lambda>f u s. 0) [stopTimeoutEnv \<mapsto>
      [CHR 0x20, CHR ''1'', CHR ''2'', CHR 0x09, CHR 0xC2, CHR 0xA0]] 5
      = (if digitsVal ''12'' \<le> maxSeconds then (int (digitsVal ''12'') * int Second, [])
         else (5, [Invalid_timeout (''12'' @ ''s'') 5]))"
    by blast
  then have r1: "parseStopTimeout (\<lambda>f u s. 0) [stopTimeoutEnv \<mapsto>
      [CHR 0x20, CHR ''1'', CHR ''2'', CHR 0x09, CHR 0xC2, CHR 0xA0]] 5 = (12000000000, [])"
    by (simp add: v Second_value)
  have e2: "[stopTimeoutEnv \<mapsto> [CHR 0x20]] stopTimeoutEnv = Some (concat [[CHR 0x20]])"
    by simp
  from t [where env = "[stopTimeoutEnv \<mapsto> [CHR 0x20]]"] e2
  have r2: "parseStopTimeout (\<lambda>f u s. 0) [stopTimeoutEnv \<mapsto> [CHR 0x20]] 5 = (5, [])"
    by blast
  from h1 h2 d r1 r2 show ?thesis by blast
qed

text \<open>
  C10 as the specification states it fails: \<^verbatim>\<open>10000000000\<close> between two spaces is
  decimal digits surrounded by white space, and the result is the default with a warning.
\<close>

theorem padded_digits_beyond_duration:
  "isAllDigits ''10000000000''
   \<and> parseStopTimeout (\<lambda>f u s. 0)
        [stopTimeoutEnv \<mapsto> CHR 0x20 # ''10000000000'' @ [CHR 0x20]] defaultStopTimeout
       = (defaultStopTimeout, [Invalid_timeout ''10000000000s'' defaultStopTimeout])
   \<and> defaultStopTimeout \<noteq> 10000000000 * int Second"
proof -
  have d: "isAllDigits ''10000000000''" by (simp add: isAllDigits_def byte_def)
  have s: "set [[CHR 0x20]] \<subseteq> set spaceRunes"
    by (simp add: spaceRunes_def space1_def)
  have p: "plain (hd ''10000000000'')" "plain (last ''10000000000'')"
    by (simp_all add: plain_def byte_def)
  from TrimSpace_plain [OF _ p s s]
  have t: "TrimSpace (Getenv [stopTimeoutEnv \<mapsto> CHR 0x20 # ''10000000000'' @ [CHR 0x20]]
      stopTimeoutEnv) = ''10000000000''"
    by (simp add: Getenv_def)
  have v: "\<not> digitsVal ''10000000000'' \<le> maxSeconds"
    by (simp add: digitsVal_def byte_def maxSeconds_def)
  from parseStopTimeout_digits [OF d t, of "\<lambda>f u s. 0" defaultStopTimeout] v d
  show ?thesis by (simp add: defaultStopTimeout_def Second_value)
qed

end
